theory Spec2Isabelle
  imports Main "HOL-Library.Word"
begin

unbundle bit_operations_syntax

section \<open>Data model of logpkt.c\<close>

type_synonym u8 = "8 word"
type_synonym u16 = "16 word"
type_synonym u32 = "32 word"
type_synonym in6_addr = "128 word"

text \<open>
  Constants of the system and libnet headers that logpkt.c uses. \<open>MSS_VAL\<close> and
  \<open>PCAP_MAGIC\<close> are defined in logpkt.c itself.
\<close>

definition MSS_VAL :: nat where "MSS_VAL = 1420"
definition PCAP_MAGIC :: u32 where "PCAP_MAGIC = 0xa1b2c3d4"

definition TH_SYN :: u8 where "TH_SYN = 0x02"
definition TH_ACK :: u8 where "TH_ACK = 0x10"
definition IPPROTO_TCP :: u8 where "IPPROTO_TCP = 6"
definition ETHERTYPE_IP :: u16 where "ETHERTYPE_IP = 0x0800"
definition ETHERTYPE_IPV6 :: u16 where "ETHERTYPE_IPV6 = 0x86dd"
definition ARPOP_REPLY :: u16 where "ARPOP_REPLY = 2"
definition ARPHRD_ETHER :: u16 where "ARPHRD_ETHER = 1"
definition LIBNET_ETH_H :: nat where "LIBNET_ETH_H = 14"
definition LIBNET_ARP_H :: nat where "LIBNET_ARP_H = 8"
definition LIBNET_IPV4_H :: nat where "LIBNET_IPV4_H = 20"
definition LIBNET_IPV6_H :: nat where "LIBNET_IPV6_H = 40"
definition LIBNET_TCP_H :: nat where "LIBNET_TCP_H = 20"
definition ETHER_ADDR_LEN :: nat where "ETHER_ADDR_LEN = 6"

datatype addr_family = AF_UNSPEC | AF_INET | AF_INET6

text \<open>
  \<open>pcap_packet_t\<close>: the per-direction context. Its declaration is in logpkt.h; the
  fields are the ones logpkt.c reads and writes, \<open>seq\<close> and \<open>ack\<close> being 32-bit
  unsigned counters.
\<close>

record pcap_packet_t =
  src_ether :: "u8 list"
  dst_ether :: "u8 list"
  af :: addr_family
  src_ip :: u32
  dst_ip :: u32
  src_ip6 :: in6_addr
  dst_ip6 :: in6_addr
  src_port :: u16
  dst_port :: u16
  seq :: u32
  ack :: u32

text \<open>
  A protocol block of the libnet handle: the arguments logpkt.c passes to
  \<open>libnet_build_tcp\<close>, \<open>libnet_build_ipv4\<close>, \<open>libnet_build_ipv6\<close> and
  \<open>libnet_build_ethernet\<close>, at the widths of libnet's prototypes.
\<close>

datatype layer =
    TCP_block (th_sport: u16) (th_dport: u16) (th_seq: u32) (th_ack: u32)
              (th_flags: u8) (th_win: u16) (th_sum: u16) (th_urp: u16)
              (th_len: u16) (th_payload: "u8 list")
  | IPv4_block (ip_len: u16) (ip_tos: u8) (ip_id: u16) (ip_off: u16) (ip_ttl: u8)
               (ip_p: u8) (ip_sum: u16) (ip_src: u32) (ip_dst: u32)
  | IPv6_block (ip6_tc: u8) (ip6_fl: u32) (ip6_len: u16) (ip6_nh: u8) (ip6_hl: u8)
               (ip6_src: in6_addr) (ip6_dst: in6_addr)
  | Ether_block (ether_dhost: "u8 list") (ether_shost: "u8 list") (ether_type: u16)

type_synonym frame = "layer list"

text \<open>
  What reaches the sink: for the capture file a record header (\<open>incl_len\<close>,
  \<open>orig_len\<close>; the timestamp of \<open>gettimeofday\<close> is left out) and then the frame,
  for the mirror interface the frame alone. A write that fails leaves nothing in the
  sink of the model.
\<close>

datatype sink_item = Pcap_rec_hdr nat nat | Pkt frame

datatype error =
    Build_tcp_failed | Build_ip_failed | Build_ethernet_failed
  | Coalesce_failed | Write_rec_hdr_failed | Write_rec_packet_failed
  | Libnet_write_failed

type_synonym 'a result = "error + 'a"

text \<open>
  The collaborators are oracles: \<open>prand e n\<close> is the value of the \<open>n\<close>-th call of
  \<open>libnet_get_prand\<close>, \<open>ext_ok e n\<close> says whether the \<open>n\<close>-th fallible call of
  libnet or of the operating system succeeds. The \<open>world\<close> holds the contexts (by
  address, so that two pointers may alias), the protocol blocks of the libnet handle,
  the sink, and how many oracle values have been used.
\<close>

record env =
  prand :: "nat \<Rightarrow> u32"
  ext_ok :: "nat \<Rightarrow> bool"

record world =
  ctxs :: "nat \<Rightarrow> pcap_packet_t"
  pblocks :: "layer list"
  sink :: "sink_item list"
  n_prand :: nat
  n_ext :: nat

section \<open>Packet synthesis and dispatch\<close>

definition libnet_get_prand :: "env \<Rightarrow> world \<Rightarrow> u32 \<times> world" where
  "libnet_get_prand e w = (prand e (n_prand w), w\<lparr>n_prand := Suc (n_prand w)\<rparr>)"

definition ext_call :: "env \<Rightarrow> world \<Rightarrow> bool \<times> world" where
  "ext_call e w = (ext_ok e (n_ext w), w\<lparr>n_ext := Suc (n_ext w)\<rparr>)"

text \<open>\<open>libnet_build_*\<close>: on success the block is added in front of the handle's blocks.\<close>

definition libnet_build :: "env \<Rightarrow> layer \<Rightarrow> world \<Rightarrow> bool \<times> world" where
  "libnet_build e l w =
     (case ext_call e w of
        (ok, w1) \<Rightarrow> if ok then (True, w1\<lparr>pblocks := l # pblocks w1\<rparr>) else (False, w1))"

definition libnet_clear_packet :: "world \<Rightarrow> world" where
  "libnet_clear_packet w = w\<lparr>pblocks := []\<rparr>"

definition set_seq :: "nat \<Rightarrow> u32 \<Rightarrow> world \<Rightarrow> world" where
  "set_seq c v w = w\<lparr>ctxs := (ctxs w)(c := (ctxs w c)\<lparr>seq := v\<rparr>)\<rparr>"

definition set_ack :: "nat \<Rightarrow> u32 \<Rightarrow> world \<Rightarrow> world" where
  "set_ack c v w = w\<lparr>ctxs := (ctxs w)(c := (ctxs w c)\<lparr>ack := v\<rparr>)\<rparr>"

definition build_tcp :: "pcap_packet_t \<Rightarrow> u8 \<Rightarrow> u8 list \<Rightarrow> layer" where
  "build_tcp ctx flags payload =
     TCP_block (src_port ctx) (dst_port ctx) (seq ctx) (ack ctx) flags 32767 0 0
       (of_nat (LIBNET_TCP_H + length payload)) payload"

definition build_ipv4 :: "pcap_packet_t \<Rightarrow> u16 \<Rightarrow> nat \<Rightarrow> layer" where
  "build_ipv4 ctx ident payloadlen =
     IPv4_block (of_nat (LIBNET_IPV4_H + LIBNET_TCP_H + payloadlen)) 0 ident 0x4000 64
       IPPROTO_TCP 0 (src_ip ctx) (dst_ip ctx)"

definition build_ipv6 :: "pcap_packet_t \<Rightarrow> nat \<Rightarrow> layer" where
  "build_ipv6 ctx payloadlen =
     IPv6_block 0 0 (of_nat (LIBNET_IPV6_H + LIBNET_TCP_H + payloadlen)) IPPROTO_TCP 255
       (src_ip6 ctx) (dst_ip6 ctx)"

definition build_ethernet :: "pcap_packet_t \<Rightarrow> layer" where
  "build_ethernet ctx =
     Ether_block (dst_ether ctx) (src_ether ctx)
       (if af ctx = AF_INET then ETHERTYPE_IP else ETHERTYPE_IPV6)"

text \<open>
  \<open>logpkt_build_packet\<close> (lines 271-353). The context is \<open>ctxs w c\<close>. The IPv4
  identification is a second draw of \<open>libnet_get_prand\<close>, cast to 16 bits.
\<close>

definition logpkt_build_ip :: "env \<Rightarrow> nat \<Rightarrow> nat \<Rightarrow> world \<Rightarrow> bool \<times> world" where
  "logpkt_build_ip e c payloadlen w =
     (if af (ctxs w c) = AF_INET then
        (case libnet_get_prand e w of
           (r, w1) \<Rightarrow> libnet_build e (build_ipv4 (ctxs w1 c) (ucast r) payloadlen) w1)
      else libnet_build e (build_ipv6 (ctxs w c) payloadlen) w)"

definition logpkt_build_packet ::
  "env \<Rightarrow> nat \<Rightarrow> u8 \<Rightarrow> u8 list \<Rightarrow> world \<Rightarrow> unit result \<times> world" where
  "logpkt_build_packet e c flags payload w =
     (let w0 = (if flags AND TH_SYN \<noteq> 0
                then (case libnet_get_prand e w of (r, w') \<Rightarrow> set_seq c r w')
                else w)
      in case libnet_build e (build_tcp (ctxs w0 c) flags payload) w0 of
           (False, w1) \<Rightarrow> (Inl Build_tcp_failed, w1)
         | (True, w1) \<Rightarrow>
            (case logpkt_build_ip e c (length payload) w1 of
               (False, w2) \<Rightarrow> (Inl Build_ip_failed, w2)
             | (True, w2) \<Rightarrow>
                (case libnet_build e (build_ethernet (ctxs w2 c)) w2 of
                   (False, w3) \<Rightarrow> (Inl Build_ethernet_failed, w3)
                 | (True, w3) \<Rightarrow>
                    (Inr (), set_seq c (seq (ctxs w3 c) + of_nat (length payload)) w3))))"

text \<open>The length libnet reports for the coalesced blocks: the header sizes and the payload.\<close>

fun layer_size :: "layer \<Rightarrow> nat" where
  "layer_size (TCP_block sp dp sq ak fl wi su ur ln pl) = LIBNET_TCP_H + length pl"
| "layer_size (IPv4_block ln tos ident off ttl p su s d) = LIBNET_IPV4_H"
| "layer_size (IPv6_block tc fl ln nh hl s d) = LIBNET_IPV6_H"
| "layer_size (Ether_block d s t) = LIBNET_ETH_H"

definition frame_len :: "frame \<Rightarrow> nat" where
  "frame_len f = sum_list (map layer_size f)"

text \<open>
  \<open>logpkt_write_pcap_record\<close> (lines 196-239): coalesce, write the record header,
  write the packet; each of the three can fail.
\<close>

definition logpkt_write_pcap_record :: "env \<Rightarrow> world \<Rightarrow> unit result \<times> world" where
  "logpkt_write_pcap_record e w =
     (case ext_call e w of
        (False, w1) \<Rightarrow> (Inl Coalesce_failed, w1)
      | (True, w1) \<Rightarrow>
         (let packet = pblocks w1; len = frame_len packet
          in case ext_call e w1 of
               (True, w2) \<Rightarrow>
                 (case ext_call e (w2\<lparr>sink := sink w2 @ [Pcap_rec_hdr len len]\<rparr>) of
                    (False, w3) \<Rightarrow> (Inl Write_rec_packet_failed, w3)
                  | (True, w3) \<Rightarrow> (Inr (), w3\<lparr>sink := sink w3 @ [Pkt packet]\<rparr>))
             | (False, w2) \<Rightarrow> (Inl Write_rec_hdr_failed, w2)))"

definition libnet_write :: "env \<Rightarrow> world \<Rightarrow> unit result \<times> world" where
  "libnet_write e w =
     (case ext_call e w of
        (False, w1) \<Rightarrow> (Inl Libnet_write_failed, w1)
      | (True, w1) \<Rightarrow> (Inr (), w1\<lparr>sink := sink w1 @ [Pkt (pblocks w1)]\<rparr>))"

text \<open>
  \<open>logpkt_write_packet\<close> (lines 355-379). \<open>to_pcap\<close> is the test
  \<open>libnet == libnet_pcap\<close>. When the build fails the function returns before
  \<open>libnet_clear_packet\<close>.
\<close>

definition logpkt_write_packet ::
  "env \<Rightarrow> bool \<Rightarrow> nat \<Rightarrow> u8 \<Rightarrow> u8 list \<Rightarrow> world \<Rightarrow> unit result \<times> world" where
  "logpkt_write_packet e to_pcap c flags payload w =
     (case logpkt_build_packet e c flags payload w of
        (Inl err, w1) \<Rightarrow> (Inl err, w1)
      | (Inr u, w1) \<Rightarrow>
         (case (if to_pcap then logpkt_write_pcap_record e w1 else libnet_write e w1) of
            (rv, w2) \<Rightarrow> (rv, libnet_clear_packet w2)))"

text \<open>
  The loop of \<open>logpkt_write_payload\<close> (lines 248-261). \<open>buf\<close> is the caller's
  buffer; the pointer \<open>payload\<close> is \<open>buf + off\<close>; \<open>sendsize\<close> and \<open>payloadlen\<close>
  are the C variables.
\<close>

function write_payload_loop ::
  "env \<Rightarrow> bool \<Rightarrow> nat \<Rightarrow> nat \<Rightarrow> u8 \<Rightarrow> u8 list \<Rightarrow> nat \<Rightarrow> nat \<Rightarrow> nat \<Rightarrow> world
     \<Rightarrow> unit result \<times> world" where
  "write_payload_loop e to_pcap from to flags buf off sendsize payloadlen w =
     (if payloadlen > 0 then
        (let off' = off + sendsize;
             sendsize' = (if payloadlen > MSS_VAL then MSS_VAL else payloadlen)
         in case logpkt_write_packet e to_pcap from flags
                   (take sendsize' (drop off' buf)) w of
              (Inl err, w1) \<Rightarrow> (Inl err, w1)
            | (Inr u, w1) \<Rightarrow>
                write_payload_loop e to_pcap from to flags buf off' sendsize'
                  (payloadlen - sendsize')
                  (set_ack to (ack (ctxs w1 to) + of_nat sendsize') w1))
      else (Inr (), w))"
  by pat_completeness auto
termination
  by (relation "measure (\<lambda>(e, to_pcap, from, to, flags, buf, off, sendsize, payloadlen, w).
                            payloadlen)")
     (auto simp: MSS_VAL_def)

declare write_payload_loop.simps [simp del]

definition logpkt_write_payload ::
  "env \<Rightarrow> bool \<Rightarrow> nat \<Rightarrow> nat \<Rightarrow> u8 \<Rightarrow> u8 list \<Rightarrow> world \<Rightarrow> unit result \<times> world" where
  "logpkt_write_payload e to_pcap from to flags payload w =
     (case write_payload_loop e to_pcap from to flags payload 0 0 (length payload) w of
        (Inl err, w1) \<Rightarrow> (Inl err, w1)
      | (Inr u, w1) \<Rightarrow> logpkt_write_packet e to_pcap to TH_ACK [] w1)"

section \<open>Observing the sink\<close>

text \<open>
  The frames that reached the sink, in dispatch order, and the TCP block of a frame
  (the block built last is the first TCP block of the coalesced frame).
\<close>

fun sent_frames :: "sink_item list \<Rightarrow> frame list" where
  "sent_frames [] = []"
| "sent_frames (Pkt f # xs) = f # sent_frames xs"
| "sent_frames (Pcap_rec_hdr a b # xs) = sent_frames xs"

fun frame_tcp :: "frame \<Rightarrow> layer option" where
  "frame_tcp [] = None"
| "frame_tcp (TCP_block sp dp sq ak fl wi su ur ln pl # ls) =
     Some (TCP_block sp dp sq ak fl wi su ur ln pl)"
| "frame_tcp (l # ls) = frame_tcp ls"

definition frame_payload :: "frame \<Rightarrow> u8 list" where
  "frame_payload f = (case frame_tcp f of Some t \<Rightarrow> th_payload t | None \<Rightarrow> [])"

definition frame_seq :: "frame \<Rightarrow> u32 option" where
  "frame_seq f = map_option th_seq (frame_tcp f)"

text \<open>
  The sequence number a packet is built with, and the number of
  \<open>libnet_get_prand\<close> calls one packet makes (one for a SYN, one for an IPv4
  identification).
\<close>

definition base_seq :: "env \<Rightarrow> u8 \<Rightarrow> nat \<Rightarrow> world \<Rightarrow> u32" where
  "base_seq e flags c w =
     (if flags AND TH_SYN \<noteq> 0 then prand e (n_prand w) else seq (ctxs w c))"

definition draws :: "u8 \<Rightarrow> addr_family \<Rightarrow> nat" where
  "draws flags a =
     (if flags AND TH_SYN \<noteq> 0 then 1 else 0) + (if a = AF_INET then 1 else 0)"

text \<open>
  The segmentation of the specification: successive pieces of at most \<open>n\<close> bytes.
  It is what the loop of \<open>logpkt_write_payload\<close> is compared with.
\<close>

function chunks :: "nat \<Rightarrow> 'a list \<Rightarrow> 'a list list" where
  "chunks n xs = (if n = 0 \<or> xs = [] then [] else take n xs # chunks n (drop n xs))"
  by pat_completeness auto
termination
  by (relation "measure (\<lambda>(n, xs). length xs)") auto

declare chunks.simps [simp del]

text \<open>
  Concrete inputs: the two contexts of the scenario of the specification (A with
  sequence 1000, B with acknowledgment 2000), a world holding A at address 0 and B
  elsewhere, and collaborators that always succeed or that fail from their \<open>k\<close>-th
  call on.
\<close>

definition ctx_A :: pcap_packet_t where
  "ctx_A = \<lparr>src_ether = [0x02, 0, 0, 0, 0, 0x01], dst_ether = [0x02, 0, 0, 0, 0, 0x02],
            af = AF_INET, src_ip = 0x0a000001, dst_ip = 0x0a000002, src_ip6 = 0, dst_ip6 = 0,
            src_port = 40000, dst_port = 443, seq = 1000, ack = 0\<rparr>"

definition ctx_B :: pcap_packet_t where
  "ctx_B = \<lparr>src_ether = [0x02, 0, 0, 0, 0, 0x02], dst_ether = [0x02, 0, 0, 0, 0, 0x01],
            af = AF_INET, src_ip = 0x0a000002, dst_ip = 0x0a000001, src_ip6 = 0, dst_ip6 = 0,
            src_port = 443, dst_port = 40000, seq = 5000, ack = 2000\<rparr>"

definition world_AB :: world where
  "world_AB = \<lparr>ctxs = (\<lambda>c. if c = 0 then ctx_A else ctx_B), pblocks = [], sink = [],
               n_prand = 0, n_ext = 0\<rparr>"

definition env_ok :: env where
  "env_ok = \<lparr>prand = (\<lambda>n. 7 + 100 * of_nat n), ext_ok = (\<lambda>n. True)\<rparr>"

definition env_fail_from :: "nat \<Rightarrow> env" where
  "env_fail_from k = \<lparr>prand = (\<lambda>n. 7 + 100 * of_nat n), ext_ok = (\<lambda>n. n < k)\<rparr>"

section \<open>The capture file\<close>

text \<open>
  \<open>pcap_file_hdr_t\<close> is a packed struct written in the byte order of the machine,
  which is a parameter here.
\<close>

datatype endian = Little_endian | Big_endian

definition enc16 :: "endian \<Rightarrow> u16 \<Rightarrow> u8 list" where
  "enc16 en v =
     (let bs = [ucast (drop_bit 8 v), ucast v] in if en = Big_endian then bs else rev bs)"

definition enc32 :: "endian \<Rightarrow> u32 \<Rightarrow> u8 list" where
  "enc32 en v =
     (let bs = [ucast (drop_bit 24 v), ucast (drop_bit 16 v), ucast (drop_bit 8 v), ucast v]
      in if en = Big_endian then bs else rev bs)"

definition dec32 :: "endian \<Rightarrow> u8 list \<Rightarrow> u32" where
  "dec32 en bs = word_rcat (if en = Big_endian then bs else rev bs)"

record pcap_file_hdr_t =
  magic_number :: u32
  version_major :: u16
  version_minor :: u16
  thiszone :: u32
  sigfigs :: u32
  snaplen :: u32
  network :: u32

definition hdr_bytes :: "endian \<Rightarrow> pcap_file_hdr_t \<Rightarrow> u8 list" where
  "hdr_bytes en h =
     enc32 en (magic_number h) @ enc16 en (version_major h) @ enc16 en (version_minor h)
     @ enc32 en (thiszone h) @ enc32 en (sigfigs h) @ enc32 en (snaplen h)
     @ enc32 en (network h)"

definition sizeof_pcap_file_hdr_t :: nat where
  "sizeof_pcap_file_hdr_t = 24"

text \<open>
  The descriptor: the bytes of the file, the file offset, and the number of system
  calls made. \<open>io sy n\<close> is the outcome of the \<open>n\<close>-th system call: complete, an
  error (\<open>-1\<close>), or a transfer cut short after at most \<open>k\<close> bytes. \<open>lseek\<close> and
  \<open>ftruncate\<close> transfer nothing and only fail on \<open>IO_error\<close>.
\<close>

datatype io_outcome = IO_complete | IO_error | IO_short nat

record sys =
  byte_order :: endian
  io :: "nat \<Rightarrow> io_outcome"

record fd_state =
  content :: "u8 list"
  pos :: nat
  n_io :: nat

datatype io_error =
  Seek_failed | Read_failed | Short_read nat | Truncate_failed | Write_failed | Short_write nat

definition tick :: "fd_state \<Rightarrow> fd_state" where
  "tick f = f\<lparr>n_io := Suc (n_io f)\<rparr>"

text \<open>\<open>lseek(fd, 0, SEEK_END)\<close>: the size of the file, or \<open>None\<close> for -1.\<close>

definition lseek_end :: "sys \<Rightarrow> fd_state \<Rightarrow> nat option \<times> fd_state" where
  "lseek_end sy f =
     (if io sy (n_io f) = IO_error then (None, tick f)
      else (Some (length (content f)), tick (f\<lparr>pos := length (content f)\<rparr>)))"

text \<open>\<open>lseek(fd, 0, SEEK_SET)\<close>.\<close>

definition lseek_set :: "sys \<Rightarrow> fd_state \<Rightarrow> nat option \<times> fd_state" where
  "lseek_set sy f =
     (if io sy (n_io f) = IO_error then (None, tick f)
      else (Some 0, tick (f\<lparr>pos := 0\<rparr>)))"

text \<open>\<open>read(fd, buf, n)\<close>: the bytes transferred, fewer than \<open>n\<close> at the end of the file.\<close>

definition sys_read :: "sys \<Rightarrow> nat \<Rightarrow> fd_state \<Rightarrow> u8 list option \<times> fd_state" where
  "sys_read sy n f =
     (case io sy (n_io f) of
        IO_error \<Rightarrow> (None, tick f)
      | IO_complete \<Rightarrow>
          (let bs = take n (drop (pos f) (content f))
           in (Some bs, tick (f\<lparr>pos := pos f + length bs\<rparr>)))
      | IO_short k \<Rightarrow>
          (let bs = take (min k n) (drop (pos f) (content f))
           in (Some bs, tick (f\<lparr>pos := pos f + length bs\<rparr>))))"

text \<open>\<open>ftruncate(fd, 0)\<close>: the offset stays where it is.\<close>

definition ftruncate0 :: "sys \<Rightarrow> fd_state \<Rightarrow> bool \<times> fd_state" where
  "ftruncate0 sy f =
     (if io sy (n_io f) = IO_error then (False, tick f)
      else (True, tick (f\<lparr>content := []\<rparr>)))"

text \<open>
  \<open>write(fd, buf, n)\<close> at the offset (the descriptor is not in append mode): the
  number of bytes written, or \<open>None\<close> for -1. A gap after the end of the file reads as
  zeros.
\<close>

definition put_bytes :: "u8 list \<Rightarrow> fd_state \<Rightarrow> fd_state" where
  "put_bytes bs f =
     f\<lparr>content := take (pos f) (content f) @ replicate (pos f - length (content f)) 0
                   @ bs @ drop (pos f + length bs) (content f),
       pos := pos f + length bs\<rparr>"

definition sys_write :: "sys \<Rightarrow> u8 list \<Rightarrow> fd_state \<Rightarrow> nat option \<times> fd_state" where
  "sys_write sy bs f =
     (case io sy (n_io f) of
        IO_error \<Rightarrow> (None, tick f)
      | IO_complete \<Rightarrow> (Some (length bs), tick (put_bytes bs f))
      | IO_short k \<Rightarrow> (Some (min k (length bs)), tick (put_bytes (take k bs) f)))"

text \<open>\<open>logpkt_write_global_pcap_hdr\<close> (lines 74-86).\<close>

definition global_pcap_hdr :: pcap_file_hdr_t where
  "global_pcap_hdr =
     \<lparr>magic_number = PCAP_MAGIC, version_major = 2, version_minor = 4, thiszone = 0,
      sigfigs = 0, snaplen = 1500, network = 1\<rparr>"

definition logpkt_write_global_pcap_hdr :: "sys \<Rightarrow> fd_state \<Rightarrow> (io_error + unit) \<times> fd_state" where
  "logpkt_write_global_pcap_hdr sy f =
     (case sys_write sy (hdr_bytes (byte_order sy) global_pcap_hdr) f of
        (None, f1) \<Rightarrow> (Inl Write_failed, f1)
      | (Some n, f1) \<Rightarrow>
          if n \<noteq> sizeof_pcap_file_hdr_t then (Inl (Short_write n), f1) else (Inr (), f1))"

text \<open>
  \<open>logpkt_pcap_open_fd\<close> (lines 99-124). Every \<open>return -1\<close> of the source is an
  \<open>Inl\<close> here; the error says which one.
\<close>

definition logpkt_pcap_open_fd :: "sys \<Rightarrow> fd_state \<Rightarrow> (io_error + unit) \<times> fd_state" where
  "logpkt_pcap_open_fd sy f =
     (case lseek_end sy f of
        (None, f1) \<Rightarrow> (Inl Seek_failed, f1)
      | (Some sz, f1) \<Rightarrow>
          if sz > 0 then
            (case lseek_set sy f1 of
               (None, f2) \<Rightarrow> (Inl Seek_failed, f2)
             | (Some z, f2) \<Rightarrow>
                 (case sys_read sy sizeof_pcap_file_hdr_t f2 of
                    (None, f3) \<Rightarrow> (Inl Read_failed, f3)
                  | (Some hdr, f3) \<Rightarrow>
                      if length hdr \<noteq> sizeof_pcap_file_hdr_t
                      then (Inl (Short_read (length hdr)), f3)
                      else if dec32 (byte_order sy) (take 4 hdr) = PCAP_MAGIC then
                        (case lseek_end sy f3 of
                           (None, f4) \<Rightarrow> (Inl Seek_failed, f4)
                         | (Some e, f4) \<Rightarrow> (Inr (), f4))
                      else
                        (case lseek_set sy f3 of
                           (None, f4) \<Rightarrow> (Inl Seek_failed, f4)
                         | (Some z', f4) \<Rightarrow>
                             (case ftruncate0 sy f4 of
                                (False, f5) \<Rightarrow> (Inl Truncate_failed, f5)
                              | (True, f5) \<Rightarrow> logpkt_write_global_pcap_hdr sy f5))))
          else logpkt_write_global_pcap_hdr sy f1)"

text \<open>
  Concrete inputs: a system without failures, little-endian, and one whose second
  system call transfers at most \<open>k\<close> bytes.
\<close>

definition sys_ok :: sys where
  "sys_ok = \<lparr>byte_order = Little_endian, io = (\<lambda>n. IO_complete)\<rparr>"

definition sys_short_write :: "nat \<Rightarrow> sys" where
  "sys_short_write k =
     \<lparr>byte_order = Little_endian, io = (\<lambda>n. if n = 1 then IO_short k else IO_complete)\<rparr>"

definition file_of :: "u8 list \<Rightarrow> fd_state" where
  "file_of bs = \<lparr>content = bs, pos = 0, n_io = 0\<rparr>"

section \<open>Setting the fields of a context\<close>

text \<open>
  The functions \<open>logpkt_set_packet_fields\<close> calls outside logpkt.c are parameters:
  \<open>sys_get_af\<close> (sys.c), \<open>inet_addr\<close> and \<open>atoi\<close> (the C library),
  \<open>libnet_name2addr6\<close> with \<open>LIBNET_DONT_RESOLVE\<close> and libnet's constant
  \<open>in6addr_error\<close>. \<open>inet_addr\<close> returns \<open>INADDR_NONE\<close>, all bits set, for
  a text that is not an IPv4 address.
\<close>

record addr_env =
  sys_get_af :: "string \<Rightarrow> addr_family"
  inet_addr :: "string \<Rightarrow> u32"
  libnet_name2addr6 :: "string \<Rightarrow> in6_addr"
  in6addr_error :: in6_addr
  atoi :: "string \<Rightarrow> int"

definition INADDR_NONE :: u32 where "INADDR_NONE = 0xffffffff"

datatype addr_error = Af_unspec | Af_mismatch | Ip4_conversion_failed | Ip6_conversion_failed

definition logpkt_ip6addr_is_error :: "addr_env \<Rightarrow> in6_addr \<Rightarrow> bool" where
  "logpkt_ip6addr_is_error ae addr = (addr = in6addr_error ae)"

text \<open>
  \<open>logpkt_str2ip46addr\<close> (lines 137-159). The two output pointers are the pair; the
  one of the family is written before the check.
\<close>

definition logpkt_str2ip46addr ::
  "addr_env \<Rightarrow> string \<Rightarrow> addr_family \<Rightarrow> u32 \<times> in6_addr
     \<Rightarrow> (addr_error + unit) \<times> (u32 \<times> in6_addr)" where
  "logpkt_str2ip46addr ae addr a out =
     (case out of (ip4addr, ip6addr) \<Rightarrow>
        if a = AF_INET then
          (let ip4addr' = inet_addr ae addr
           in if ip4addr' = 0 then (Inl Ip4_conversion_failed, (ip4addr', ip6addr))
              else (Inr (), (ip4addr', ip6addr)))
        else
          (let ip6addr' = libnet_name2addr6 ae addr
           in if logpkt_ip6addr_is_error ae ip6addr'
              then (Inl Ip6_conversion_failed, (ip4addr, ip6addr'))
              else (Inr (), (ip4addr, ip6addr'))))"

text \<open>\<open>logpkt_set_packet_fields\<close> (lines 161-194).\<close>

definition logpkt_set_packet_fields ::
  "addr_env \<Rightarrow> pcap_packet_t \<Rightarrow> string \<Rightarrow> string \<Rightarrow> string \<Rightarrow> string
     \<Rightarrow> (addr_error + unit) \<times> pcap_packet_t" where
  "logpkt_set_packet_fields ae ctx src_addr src_port_s dst_addr dst_port_s =
     (let ctx1 = ctx\<lparr>af := sys_get_af ae src_addr\<rparr>
      in if af ctx1 = AF_UNSPEC then (Inl Af_unspec, ctx1)
         else if sys_get_af ae dst_addr \<noteq> af ctx1 then (Inl Af_mismatch, ctx1)
         else
           (case logpkt_str2ip46addr ae src_addr (af ctx1) (src_ip ctx1, src_ip6 ctx1) of
              (Inl err, (ip4, ip6)) \<Rightarrow> (Inl err, ctx1\<lparr>src_ip := ip4, src_ip6 := ip6\<rparr>)
            | (Inr u, (ip4, ip6)) \<Rightarrow>
               (let ctx2 = ctx1\<lparr>src_ip := ip4, src_ip6 := ip6,
                                 src_port := word_of_int (atoi ae src_port_s)\<rparr>
                in case logpkt_str2ip46addr ae dst_addr (af ctx2) (dst_ip ctx2, dst_ip6 ctx2) of
                     (Inl err, (ip4', ip6')) \<Rightarrow>
                       (Inl err, ctx2\<lparr>dst_ip := ip4', dst_ip6 := ip6'\<rparr>)
                   | (Inr u', (ip4', ip6')) \<Rightarrow>
                       (Inr (), ctx2\<lparr>dst_ip := ip4', dst_ip6 := ip6',
                                      dst_port := word_of_int (atoi ae dst_port_s),
                                      seq := 0, ack := 0\<rparr>))))"

text \<open>
  Concrete collaborators on three address texts: what \<open>inet_addr\<close> returns for
  \<open>0.0.0.0\<close> (zero), for \<open>10.0.0.1\<close> (the address in network byte order on a
  little-endian machine) and for a text that is no address (\<open>INADDR_NONE\<close>).
\<close>

definition addr_env_example :: addr_env where
  "addr_env_example =
     \<lparr>sys_get_af = (\<lambda>s. AF_INET),
      inet_addr = (\<lambda>s. if s = ''0.0.0.0'' then 0
                        else if s = ''10.0.0.1'' then 0x0100000a else INADDR_NONE),
      libnet_name2addr6 = (\<lambda>s. - 1),
      in6addr_error = - 1,
      atoi = (\<lambda>s. if s = ''443'' then 443 else if s = ''40000'' then 40000 else 0)\<rparr>"

section \<open>Looking up the hardware address of the mirror target\<close>

text \<open>
  A captured frame is its bytes: the Ethernet header (14 bytes, the source address at
  offset 6) and the ARP header (8 bytes) followed by the sender hardware address, the
  sender protocol address at offset \<open>ar_hln\<close> behind it, and the target addresses.
  The 16-bit fields are in network byte order. The model reads what \<open>take\<close> and
  \<open>drop\<close> give; a captured frame shorter than the fields read makes the C code read
  beyond the buffer.
\<close>

type_synonym packet = "u8 list"

definition bytes_at :: "packet \<Rightarrow> nat \<Rightarrow> nat \<Rightarrow> u8 list" where
  "bytes_at p off n = take n (drop off p)"

definition ntohs_at :: "packet \<Rightarrow> nat \<Rightarrow> u16" where
  "ntohs_at p off = word_rcat (bytes_at p off 2)"

definition ar_hrd :: "packet \<Rightarrow> u16" where "ar_hrd p = ntohs_at p (LIBNET_ETH_H + 0)"
definition ar_pro :: "packet \<Rightarrow> u16" where "ar_pro p = ntohs_at p (LIBNET_ETH_H + 2)"
definition ar_hln :: "packet \<Rightarrow> nat" where "ar_hln p = unat (p ! (LIBNET_ETH_H + 4))"
definition ar_op :: "packet \<Rightarrow> u16" where "ar_op p = ntohs_at p (LIBNET_ETH_H + 6)"

definition eth_shost :: "packet \<Rightarrow> u8 list" where
  "eth_shost p = bytes_at p ETHER_ADDR_LEN ETHER_ADDR_LEN"

definition arp_sha :: "packet \<Rightarrow> u8 list" where
  "arp_sha p = bytes_at p (LIBNET_ETH_H + LIBNET_ARP_H) ETHER_ADDR_LEN"

definition arp_spa :: "packet \<Rightarrow> u8 list" where
  "arp_spa p = bytes_at p (LIBNET_ETH_H + ar_hln p + LIBNET_ARP_H) 4"

text \<open>
  \<open>logpkt_recv_arp_reply_ctx_t\<close>; \<open>ip\<close> is the four bytes of the address as they
  lie in memory (network byte order), which is what \<open>memcmp\<close> compares.
\<close>

record logpkt_recv_arp_reply_ctx_t =
  ip :: "u8 list"
  result :: int
  ether :: "u8 list"

text \<open>\<open>logpkt_recv_arp_reply\<close> (lines 387-417), the callback of \<open>pcap_dispatch\<close>.\<close>

definition logpkt_recv_arp_reply ::
  "logpkt_recv_arp_reply_ctx_t \<Rightarrow> packet \<Rightarrow> logpkt_recv_arp_reply_ctx_t" where
  "logpkt_recv_arp_reply ctx p =
     (if ar_op p \<noteq> ARPOP_REPLY then ctx
      else if ar_pro p \<noteq> ETHERTYPE_IP then ctx
      else if ar_hrd p \<noteq> ARPHRD_ETHER then ctx
      else if ip ctx \<noteq> arp_spa p then ctx
      else if arp_sha p \<noteq> eth_shost p then ctx
      else ctx\<lparr>ether := arp_sha p, result := 0\<rparr>)"

text \<open>
  What the callback tests, with the reads of the code: it always compares six bytes
  behind the ARP header with the source address of the frame and four bytes at offset
  \<open>ar_hln\<close> behind the ARP header with the target; it never tests \<open>ar_hln\<close>
  or \<open>ar_pln\<close>.
\<close>

definition callback_accepts :: "u8 list \<Rightarrow> packet \<Rightarrow> bool" where
  "callback_accepts target_ip p \<longleftrightarrow>
     ar_op p = ARPOP_REPLY \<and> ar_pro p = ETHERTYPE_IP \<and> ar_hrd p = ARPHRD_ETHER
     \<and> arp_spa p = target_ip \<and> arp_sha p = eth_shost p"

text \<open>
  The five filters in the words of the specification, on the fields of an ARP packet
  as the protocol lays them out: after the fixed header of 8 bytes come the sender
  hardware address (\<open>ar_hln\<close> bytes), the sender protocol address (\<open>ar_pln\<close>
  bytes), and the two target addresses. A field that does not lie within the captured
  frame is absent. In a reply the sender protocol address is the address that was
  resolved.
\<close>

definition field :: "packet \<Rightarrow> nat \<Rightarrow> nat \<Rightarrow> u8 list option" where
  "field p off n = (if off + n \<le> length p then Some (take n (drop off p)) else None)"

definition field16 :: "packet \<Rightarrow> nat \<Rightarrow> u16 option" where
  "field16 p off = map_option word_rcat (field p off 2)"

definition field8 :: "packet \<Rightarrow> nat \<Rightarrow> u8 option" where
  "field8 p off = (if off < length p then Some (p ! off) else None)"

definition ar_pln :: "packet \<Rightarrow> nat" where "ar_pln p = unat (p ! (LIBNET_ETH_H + 5))"

definition ether_source :: "packet \<Rightarrow> u8 list option" where
  "ether_source p = field p 6 6"

definition arp_hardware_type :: "packet \<Rightarrow> u16 option" where
  "arp_hardware_type p = field16 p 14"

definition arp_protocol_type :: "packet \<Rightarrow> u16 option" where
  "arp_protocol_type p = field16 p 16"

definition arp_operation :: "packet \<Rightarrow> u16 option" where
  "arp_operation p = field16 p 20"

definition arp_sender_hw :: "packet \<Rightarrow> u8 list option" where
  "arp_sender_hw p =
     (case field8 p 18 of None \<Rightarrow> None | Some hln \<Rightarrow> field p 22 (unat hln))"

definition arp_sender_ip :: "packet \<Rightarrow> u8 list option" where
  "arp_sender_ip p =
     (case (field8 p 18, field8 p 19) of
        (Some hln, Some pln) \<Rightarrow> field p (22 + unat hln) (unat pln)
      | _ \<Rightarrow> None)"

definition passes_filters :: "u8 list \<Rightarrow> packet \<Rightarrow> bool" where
  "passes_filters target_ip p \<longleftrightarrow>
     arp_operation p = Some 2
     \<and> arp_protocol_type p = Some 0x0800
     \<and> arp_hardware_type p = Some 1
     \<and> arp_sender_ip p = Some target_ip
     \<and> arp_sender_hw p \<noteq> None \<and> arp_sender_hw p = ether_source p"

text \<open>
  The collaborators of \<open>logpkt_ether_lookup\<close>: the results of the set-up calls, and
  for the loop whether the \<open>n\<close>-th \<open>libnet_write\<close> succeeds and what the \<open>n\<close>-th
  \<open>pcap_dispatch\<close> does: the frames it hands to the callback and whether it then
  returns a negative value. \<open>pcap_dispatch\<close> is asked for at most 1000 packets.
\<close>

record lookup_env =
  libnet_name2addr4 :: "string \<Rightarrow> u8 list"
  libnet_get_ipaddr4 :: "u8 list"
  libnet_get_hwaddr :: "u8 list option"
  libnet_autobuild_arp_ok :: bool
  libnet_autobuild_ethernet_ok :: bool
  pcap_open_live_ok :: "string \<Rightarrow> bool"
  pcap_compile_ok :: bool
  pcap_setfilter_ok :: bool
  arp_write_ok :: "nat \<Rightarrow> bool"
  pcap_dispatch :: "nat \<Rightarrow> packet list \<times> bool"

text \<open>What the loop did: iterations begun, requests sent, windows observed, sleeps.\<close>

record lookup_trace =
  attempts :: nat
  requests :: nat
  windows :: nat
  sleeps :: nat

definition trace0 :: lookup_trace where
  "trace0 = \<lparr>attempts = 0, requests = 0, windows = 0, sleeps = 0\<rparr>"

text \<open>
  The \<open>do ... while (ctx.result == -1 && --count > 0)\<close> loop (lines 496-513);
  \<open>count\<close> is the C variable at the start of the iteration.
\<close>

function arp_loop ::
  "lookup_env \<Rightarrow> int \<Rightarrow> logpkt_recv_arp_reply_ctx_t \<Rightarrow> lookup_trace
     \<Rightarrow> logpkt_recv_arp_reply_ctx_t \<times> lookup_trace" where
  "arp_loop le count ctx t =
     (let t1 = t\<lparr>attempts := Suc (attempts t)\<rparr> in
      if arp_write_ok le (attempts t) then
        (let t2 = t1\<lparr>requests := Suc (requests t1)\<rparr> in
         case pcap_dispatch le (windows t2) of
           (frames, ok) \<Rightarrow>
             (let ctx' = foldl logpkt_recv_arp_reply ctx (take 1000 frames);
                  t3 = t2\<lparr>windows := Suc (windows t2)\<rparr>
              in if \<not> ok then (ctx', t3)
                 else
                   (let t4 = t3\<lparr>sleeps := Suc (sleeps t3)\<rparr>
                    in if result ctx' = - 1 \<and> count - 1 > 0
                       then arp_loop le (count - 1) ctx' t4
                       else (ctx', t4))))
      else (ctx, t1))"
  by pat_completeness auto
termination
  by (relation "measure (\<lambda>(le, count, ctx, t). nat count)") auto

declare arp_loop.simps [simp del]

datatype lookup_error =
    Name2addr4_failed | Get_ipaddr4_failed | Get_hwaddr_failed | Autobuild_arp_failed
  | Autobuild_ethernet_failed | Pcap_open_live_failed | Pcap_compile_failed
  | Pcap_setfilter_failed

text \<open>
  \<open>logpkt_ether_lookup\<close> (lines 422-529). The function returns \<open>ctx.result\<close>,
  which is first assigned just before the loop: on a failing set-up call the value
  returned is the uninitialised one, \<open>junk\<close> here. The outcome holds the value
  returned, the two output buffers, the set-up error if any, and the trace of the loop.
\<close>

record lookup_outcome =
  returned :: int
  src_ether_out :: "u8 list"
  dst_ether_out :: "u8 list"
  setup_error :: "lookup_error option"
  trace :: lookup_trace

definition logpkt_ether_lookup ::
  "lookup_env \<Rightarrow> int \<Rightarrow> u8 list \<Rightarrow> u8 list \<Rightarrow> u8 list \<Rightarrow> string \<Rightarrow> string \<Rightarrow> lookup_outcome" where
  "logpkt_ether_lookup le junk junk_ether src_ether_buf dst_ether_buf dst_ip_s dst_if_s =
     (let fail = (\<lambda>err src. \<lparr>returned = junk, src_ether_out = src, dst_ether_out = dst_ether_buf,
                               setup_error = Some err, trace = trace0\<rparr>);
          ctx_ip = libnet_name2addr4 le dst_ip_s
      in if ctx_ip = [0xff, 0xff, 0xff, 0xff] then fail Name2addr4_failed src_ether_buf
         else if libnet_get_ipaddr4 le = [0xff, 0xff, 0xff, 0xff] then fail Get_ipaddr4_failed src_ether_buf
         else
           (case libnet_get_hwaddr le of
              None \<Rightarrow> fail Get_hwaddr_failed src_ether_buf
            | Some hw \<Rightarrow>
               (let src = take ETHER_ADDR_LEN hw
                in if \<not> libnet_autobuild_arp_ok le then fail Autobuild_arp_failed src
                   else if \<not> libnet_autobuild_ethernet_ok le then fail Autobuild_ethernet_failed src
                   else if \<not> pcap_open_live_ok le dst_if_s then fail Pcap_open_live_failed src
                   else if \<not> pcap_compile_ok le then fail Pcap_compile_failed src
                   else if \<not> pcap_setfilter_ok le then fail Pcap_setfilter_failed src
                   else
                     (case arp_loop le 50 \<lparr>ip = ctx_ip, result = - 1, ether = junk_ether\<rparr> trace0 of
                        (ctx, t) \<Rightarrow>
                          \<lparr>returned = result ctx, src_ether_out = src,
                           dst_ether_out = (if result ctx = 0 then take ETHER_ADDR_LEN (ether ctx)
                                            else dst_ether_buf),
                           setup_error = None, trace = t\<rparr>))))"

text \<open>
  The frames of the \<open>n\<close>-th window that the callback accepts, and the success of
  every set-up call.
\<close>

definition window :: "lookup_env \<Rightarrow> u8 list \<Rightarrow> nat \<Rightarrow> packet list" where
  "window le target n = filter (callback_accepts target) (take 1000 (fst (pcap_dispatch le n)))"

definition setup_ok :: "lookup_env \<Rightarrow> string \<Rightarrow> string \<Rightarrow> bool" where
  "setup_ok le dst_ip_s dst_if_s \<longleftrightarrow>
     libnet_name2addr4 le dst_ip_s \<noteq> [0xff, 0xff, 0xff, 0xff]
     \<and> libnet_get_ipaddr4 le \<noteq> [0xff, 0xff, 0xff, 0xff]
     \<and> libnet_get_hwaddr le \<noteq> None
     \<and> libnet_autobuild_arp_ok le \<and> libnet_autobuild_ethernet_ok le
     \<and> pcap_open_live_ok le dst_if_s \<and> pcap_compile_ok le \<and> pcap_setfilter_ok le"

text \<open>
  Concrete inputs: an ARP reply as it is captured (Ethernet header, ARP header, the
  four addresses), and collaborators whose set-up succeeds: the local interface is
  10.0.0.1, the target 10.0.0.2.
\<close>

definition arp_reply :: "u8 list \<Rightarrow> u8 list \<Rightarrow> u8 list \<Rightarrow> u8 list \<Rightarrow> packet" where
  "arp_reply sha spa tha tpa =
     tha @ sha @ [0x08, 0x06] @ [0x00, 0x01, 0x08, 0x00, 0x06, 0x04, 0x00, 0x02]
     @ sha @ spa @ tha @ tpa"

definition mac_local :: "u8 list" where "mac_local = [0x02, 0, 0, 0, 0, 0x01]"
definition mac_x :: "u8 list" where "mac_x = [0x02, 0, 0, 0, 0, 0xaa]"
definition mac_y :: "u8 list" where "mac_y = [0x02, 0, 0, 0, 0, 0xbb]"

definition lookup_env_example ::
  "(nat \<Rightarrow> bool) \<Rightarrow> (nat \<Rightarrow> packet list \<times> bool) \<Rightarrow> lookup_env" where
  "lookup_env_example wr disp =
     \<lparr>libnet_name2addr4 = (\<lambda>s. [10, 0, 0, 2]), libnet_get_ipaddr4 = [10, 0, 0, 1],
      libnet_get_hwaddr = Some mac_local, libnet_autobuild_arp_ok = True,
      libnet_autobuild_ethernet_ok = True, pcap_open_live_ok = (\<lambda>s. True),
      pcap_compile_ok = True, pcap_setfilter_ok = True,
      arp_write_ok = wr, pcap_dispatch = disp\<rparr>"

definition reply_x :: packet where
  "reply_x = arp_reply mac_x [10, 0, 0, 2] mac_local [10, 0, 0, 1]"

definition reply_y :: packet where
  "reply_y = arp_reply mac_y [10, 0, 0, 2] mac_local [10, 0, 0, 1]"

text \<open>
  Two frames that do not have the layout of an Ethernet/IPv4 reply. The first declares
  hardware addresses of 4 bytes: its sender hardware address is 02:00:00:00, its sender
  protocol address 10.0.0.2, and the source address of the frame is 02:00:00:00:0a:00.
  The second declares protocol addresses of 2 bytes: its sender protocol address is the
  two bytes 0a 00, followed by a target hardware address that starts with 00 02.
\<close>

definition reply_hln4 :: packet where
  "reply_hln4 =
     mac_local @ [0x02, 0, 0, 0, 10, 0] @ [0x08, 0x06]
     @ [0x00, 0x01, 0x08, 0x00, 0x04, 0x04, 0x00, 0x02]
     @ [0x02, 0, 0, 0] @ [10, 0, 0, 2] @ [0x02, 0, 0, 1] @ [10, 0, 0, 1] @ [0, 0, 0, 0]"

definition reply_pln2 :: packet where
  "reply_pln2 =
     mac_local @ mac_x @ [0x08, 0x06]
     @ [0x00, 0x01, 0x08, 0x00, 0x06, 0x02, 0x00, 0x02]
     @ mac_x @ [10, 0] @ [0, 2, 0, 0, 0, 1] @ [10, 0] @ [0, 0, 0, 0]"

definition reply_other :: packet where
  "reply_other = arp_reply mac_x [10, 0, 0, 3] mac_local [10, 0, 0, 1]"

text \<open>
  Runs: no frame is ever accepted; the request cannot be sent at all, or not at the
  attempt of index \<open>k\<close>; \<open>pcap_dispatch\<close> fails at the attempt of index
  \<open>k\<close>; two different hosts answer in the first window; the answer comes in the
  second window; the first window holds the frame with hardware addresses of 4 bytes.
\<close>

definition lookup_env_unanswered :: lookup_env where
  "lookup_env_unanswered = lookup_env_example (\<lambda>n. True) (\<lambda>n. ([reply_other], True))"

definition lookup_env_tx_fails :: lookup_env where
  "lookup_env_tx_fails = lookup_env_example (\<lambda>n. False) (\<lambda>n. ([], True))"

definition lookup_env_tx_fails_at :: "nat \<Rightarrow> lookup_env" where
  "lookup_env_tx_fails_at k = lookup_env_example (\<lambda>n. n \<noteq> k) (\<lambda>n. ([reply_other], True))"

definition lookup_env_dispatch_fails_at :: "nat \<Rightarrow> lookup_env" where
  "lookup_env_dispatch_fails_at k =
     lookup_env_example (\<lambda>n. True) (\<lambda>n. ([reply_other], n \<noteq> k))"



definition lookup_env_hln4_reply :: lookup_env where
  "lookup_env_hln4_reply = lookup_env_example (\<lambda>n. True) (\<lambda>n. ([reply_hln4], True))"

section \<open>Properties of synthesis and segmentation\<close>

lemma sent_frames_append: "sent_frames (xs @ ys) = sent_frames xs @ sent_frames ys"
  by (induction xs rule: sent_frames.induct) auto

lemma build_packet_Inr:
  assumes "logpkt_build_packet e c fl pl w = (Inr u, w')"
  shows "\<exists>eb ipb. pblocks w' = eb # ipb # build_tcp ((ctxs w c)\<lparr>seq := base_seq e fl c w\<rparr>) fl pl # pblocks w
          \<and> frame_tcp [eb, ipb] = None"
    and "ctxs w' = (ctxs w)(c := (ctxs w c)\<lparr>seq := base_seq e fl c w + of_nat (length pl)\<rparr>)"
    and "sink w' = sink w"
    and "n_prand w' = n_prand w + draws fl (af (ctxs w c))"
  using assms
  by (auto simp: logpkt_build_packet_def logpkt_build_ip_def libnet_build_def ext_call_def
      libnet_get_prand_def set_seq_def base_seq_def draws_def Let_def build_ethernet_def build_ipv4_def build_ipv6_def
      split: prod.splits if_splits bool.splits)

lemma build_packet_Inl:
  assumes "logpkt_build_packet e c fl pl w = (Inl err, w')"
  shows "ctxs w' = (ctxs w)(c := (ctxs w c)\<lparr>seq := base_seq e fl c w\<rparr>)"
    and "sink w' = sink w"
  using assms
  by (auto simp: logpkt_build_packet_def logpkt_build_ip_def libnet_build_def ext_call_def
      libnet_get_prand_def set_seq_def base_seq_def draws_def Let_def
      split: prod.splits if_splits bool.splits)

lemma frame_tcp_built:
  "frame_tcp [eb, ipb] = None \<Longrightarrow> frame_tcp (eb # ipb # build_tcp ctx fl pl # rest) = Some (build_tcp ctx fl pl)"
  by (cases eb; cases ipb) (auto simp: build_tcp_def)

lemma dispatch_Inr:
  assumes "(if p then logpkt_write_pcap_record e w else libnet_write e w) = (Inr u, w')"
  shows "sent_frames (sink w') = sent_frames (sink w) @ [pblocks w]"
    and "ctxs w' = ctxs w" and "n_prand w' = n_prand w"
  using assms
  by (auto simp: logpkt_write_pcap_record_def libnet_write_def ext_call_def Let_def sent_frames_append
      split: prod.splits if_splits bool.splits)

lemma dispatch_Inl:
  assumes "(if p then logpkt_write_pcap_record e w else libnet_write e w) = (Inl err, w')"
  shows "sent_frames (sink w') = sent_frames (sink w)"
    and "ctxs w' = ctxs w" and "n_prand w' = n_prand w"
  using assms
  by (auto simp: logpkt_write_pcap_record_def libnet_write_def ext_call_def Let_def sent_frames_append
      split: prod.splits if_splits bool.splits)

lemma write_packet_Inr:
  assumes "logpkt_write_packet e p c fl pl w = (Inr u, w')"
  shows "\<exists>f. sent_frames (sink w') = sent_frames (sink w) @ [f]
           \<and> frame_tcp f = Some (build_tcp ((ctxs w c)\<lparr>seq := base_seq e fl c w\<rparr>) fl pl)"
    and "ctxs w' = (ctxs w)(c := (ctxs w c)\<lparr>seq := base_seq e fl c w + of_nat (length pl)\<rparr>)"
    and "pblocks w' = []"
    and "n_prand w' = n_prand w + draws fl (af (ctxs w c))"
proof -
  from assms obtain u1 w1 w2 where
    b: "logpkt_build_packet e c fl pl w = (Inr u1, w1)" and
    d: "(if p then logpkt_write_pcap_record e w1 else libnet_write e w1) = (Inr u, w2)" and
    w': "w' = libnet_clear_packet w2"
    by (auto simp: logpkt_write_packet_def split: prod.splits sum.splits)
  from build_packet_Inr(1)[OF b] obtain eb ipb where
    pb: "pblocks w1 = eb # ipb # build_tcp ((ctxs w c)\<lparr>seq := base_seq e fl c w\<rparr>) fl pl # pblocks w"
    and nt: "frame_tcp [eb, ipb] = None" by blast
  have "sent_frames (sink w') = sent_frames (sink w) @ [pblocks w1]"
    using dispatch_Inr(1)[OF d] build_packet_Inr(3)[OF b] by (simp add: w' libnet_clear_packet_def)
  moreover have "frame_tcp (pblocks w1) = Some (build_tcp ((ctxs w c)\<lparr>seq := base_seq e fl c w\<rparr>) fl pl)"
    unfolding pb by (rule frame_tcp_built[OF nt])
  ultimately show "\<exists>f. sent_frames (sink w') = sent_frames (sink w) @ [f]
           \<and> frame_tcp f = Some (build_tcp ((ctxs w c)\<lparr>seq := base_seq e fl c w\<rparr>) fl pl)"
    by blast
  show "ctxs w' = (ctxs w)(c := (ctxs w c)\<lparr>seq := base_seq e fl c w + of_nat (length pl)\<rparr>)"
    using dispatch_Inr(2)[OF d] build_packet_Inr(2)[OF b] by (simp add: w' libnet_clear_packet_def)
  show "pblocks w' = []" by (simp add: w' libnet_clear_packet_def)
  show "n_prand w' = n_prand w + draws fl (af (ctxs w c))"
    using dispatch_Inr(3)[OF d] build_packet_Inr(4)[OF b] by (simp add: w' libnet_clear_packet_def)
qed

lemma write_packet_Inl:
  assumes "logpkt_write_packet e p c fl pl w = (Inl err, w')"
  shows "sent_frames (sink w') = sent_frames (sink w)"
    and "\<exists>s. ctxs w' = (ctxs w)(c := (ctxs w c)\<lparr>seq := s\<rparr>)"
proof -
  from assms consider
    (build) "logpkt_build_packet e c fl pl w = (Inl err, w')"
  | (disp) u1 w1 w2 where "logpkt_build_packet e c fl pl w = (Inr u1, w1)"
      "(if p then logpkt_write_pcap_record e w1 else libnet_write e w1) = (Inl err, w2)"
      "w' = libnet_clear_packet w2"
    by (auto simp: logpkt_write_packet_def split: prod.splits sum.splits)
  then have "sent_frames (sink w') = sent_frames (sink w) \<and> (\<exists>s. ctxs w' = (ctxs w)(c := (ctxs w c)\<lparr>seq := s\<rparr>))"
  proof cases
    case build
    then show ?thesis using build_packet_Inl[OF build] by auto
  next
    case disp
    then show ?thesis
      using build_packet_Inr(2,3)[OF disp(1)] dispatch_Inl(1,2)[OF disp(2)]
      by (auto simp: libnet_clear_packet_def)
  qed
  then show "sent_frames (sink w') = sent_frames (sink w)"
    and "\<exists>s. ctxs w' = (ctxs w)(c := (ctxs w c)\<lparr>seq := s\<rparr>)" by blast+
qed

lemma chunks_Nil [simp]: "chunks n [] = []"
  by (simp add: chunks.simps)

lemma chunks_Cons: "0 < n \<Longrightarrow> xs \<noteq> [] \<Longrightarrow> chunks n xs = take n xs # chunks n (drop n xs)"
  by (subst chunks.simps) simp

lemma concat_chunks: "0 < n \<Longrightarrow> concat (chunks n xs) = xs"
proof (induction n xs rule: chunks.induct)
  case (1 n xs)
  show ?case
  proof (cases "xs = []")
    case True
    then show ?thesis by simp
  next
    case False
    with 1 show ?thesis by (simp add: chunks_Cons)
  qed
qed

lemma length_chunks: "0 < n \<Longrightarrow> length (chunks n xs) = (length xs + n - 1) div n"
proof (induction n xs rule: chunks.induct)
  case (1 n xs)
  show ?case
  proof (cases "xs = []")
    case True
    then show ?thesis using 1(2) by simp
  next
    case False
    then have len: "0 < length xs" by simp
    have ih: "length (chunks n (drop n xs)) = (length xs - n + n - 1) div n"
      using 1 False by simp
    show ?thesis
    proof (cases "length xs \<le> n")
      case True
      have "(length xs + n - 1) div n = 1"
      proof -
        obtain k where k: "length xs + n - 1 = n + k" "k < n"
          using True len by (intro that[of "length xs - 1"]) linarith+
        have "(n + k) div n = 1" using k(2) by (simp add: div_nat_eqI)
        then show ?thesis using k(1) by simp
      qed
      with True ih 1(2) \<open>xs \<noteq> []\<close> show ?thesis by (simp add: chunks_Cons)
    next
      case False
      then have "length xs + n - 1 = (length xs - n + n - 1) + n" by simp
      then have "(length xs + n - 1) div n = Suc ((length xs - n + n - 1) div n)"
        using 1(2) by (metis div_add_self2 Suc_eq_plus1 less_numeral_extra(3))
      with ih 1(2) \<open>xs \<noteq> []\<close> show ?thesis by (simp add: chunks_Cons)
    qed
  qed
qed

lemma chunks_bounds: "0 < n \<Longrightarrow> c \<in> set (chunks n xs) \<Longrightarrow> c \<noteq> [] \<and> length c \<le> n"
proof (induction n xs rule: chunks.induct)
  case (1 n xs)
  show ?case
  proof (cases "xs = []")
    case True
    with 1 show ?thesis by simp
  next
    case False
    with 1 show ?thesis by (auto simp: chunks_Cons)
  qed
qed

lemma set_ack_simps [simp]:
  "sink (set_ack c v w) = sink w"
  "pblocks (set_ack c v w) = pblocks w"
  "n_prand (set_ack c v w) = n_prand w"
  "n_ext (set_ack c v w) = n_ext w"
  "ack (ctxs (set_ack c v w) c') = (if c' = c then v else ack (ctxs w c'))"
  "seq (ctxs (set_ack c v w) c') = seq (ctxs w c')"
  "af (ctxs (set_ack c v w) c') = af (ctxs w c')"
  by (simp_all add: set_ack_def)

lemma frame_payload_built:
  "frame_tcp f = Some (build_tcp ctx fl pl) \<Longrightarrow> frame_payload f = pl"
  by (simp add: frame_payload_def build_tcp_def)

lemma write_packet_ack:
  assumes "logpkt_write_packet e p c fl pl w = (r, w')"
  shows "ack (ctxs w' c') = ack (ctxs w c')"
proof (cases r)
  case (Inl err)
  with write_packet_Inl(2)[of e p c fl pl w err w'] assms show ?thesis by auto
next
  case (Inr u)
  with write_packet_Inr(2)[of e p c fl pl w u w'] assms show ?thesis by auto
qed

lemma loop_frames:
  assumes "write_payload_loop e p from to fl buf off ss plen w = (r, w')"
    and "off + ss + plen = length buf"
  shows "\<exists>fs. sent_frames (sink w') = sent_frames (sink w) @ fs
      \<and> ack (ctxs w' to) = ack (ctxs w to) + of_nat (length (concat (map frame_payload fs)))
      \<and> (case r of
           Inr u \<Rightarrow> map frame_payload fs = chunks MSS_VAL (drop (off + ss) buf)
         | Inl err \<Rightarrow> (\<exists>k<length (chunks MSS_VAL (drop (off + ss) buf)).
                        map frame_payload fs = take k (chunks MSS_VAL (drop (off + ss) buf))))"
  using assms
proof (induction e p "from" to fl buf off ss plen w arbitrary: r w' rule: write_payload_loop.induct)
  case (1 e p "from" to fl buf off ss plen w)
  let ?off = "off + ss"
  let ?ss = "if MSS_VAL < plen then MSS_VAL else plen"
  let ?rest = "drop ?off buf"
  let ?chunk = "take ?ss ?rest"
  have restlen: "length ?rest = plen" using "1.prems"(2) by simp
  show ?case
  proof (cases "0 < plen")
    case False
    then have "r = Inr ()" "w' = w" "?rest = []"
      using "1.prems" by (simp_all add: write_payload_loop.simps)
    then show ?thesis by simp
  next
    case True
    then have ne: "?rest \<noteq> []" using restlen by auto
    have ck: "chunks MSS_VAL ?rest = ?chunk # chunks MSS_VAL (drop (?off + ?ss) buf)"
      using ne restlen by (subst chunks_Cons) (auto simp: MSS_VAL_def add.commute)
    have cklen: "length ?chunk = ?ss" using restlen by auto
    obtain r1 w1 where wp: "logpkt_write_packet e p from fl ?chunk w = (r1, w1)"
      by (cases "logpkt_write_packet e p from fl ?chunk w") auto
    show ?thesis
    proof (cases r1)
      case (Inl err)
      then have res: "r = Inl err" "w' = w1"
        using "1.prems"(1) True wp by (simp_all add: write_payload_loop.simps Let_def)
      have "sent_frames (sink w1) = sent_frames (sink w)"
        using write_packet_Inl(1) wp Inl by blast
      moreover have "ack (ctxs w1 to) = ack (ctxs w to)"
        using write_packet_ack[OF wp] .
      ultimately show ?thesis
        unfolding res ck by (intro exI[of _ "[]"]) auto
    next
      case (Inr u)
      let ?w2 = "set_ack to (ack (ctxs w1 to) + of_nat ?ss) w1"
      have rec: "write_payload_loop e p from to fl buf ?off ?ss (plen - ?ss) ?w2 = (r, w')"
        using "1.prems"(1) True wp Inr by (simp add: write_payload_loop.simps[of _ _ _ _ _ _ off] Let_def)
      have inv: "?off + ?ss + (plen - ?ss) = length buf"
        using "1.prems"(2) by auto
      from "1.IH"[OF True refl refl wp[symmetric] Inr rec inv]
      obtain fs where fs:
        "sent_frames (sink w') = sent_frames (sink ?w2) @ fs"
        "ack (ctxs w' to) = ack (ctxs ?w2 to) + of_nat (length (concat (map frame_payload fs)))"
        "(case r of
           Inr u \<Rightarrow> map frame_payload fs = chunks MSS_VAL (drop (?off + ?ss) buf)
         | Inl err \<Rightarrow> (\<exists>k<length (chunks MSS_VAL (drop (?off + ?ss) buf)).
                        map frame_payload fs = take k (chunks MSS_VAL (drop (?off + ?ss) buf))))"
        by blast
      from write_packet_Inr(1)[OF wp[unfolded Inr]] obtain f where f:
        "sent_frames (sink w1) = sent_frames (sink w) @ [f]" "frame_payload f = ?chunk"
        using frame_payload_built by blast
      have a1: "ack (ctxs w1 to) = ack (ctxs w to)" using write_packet_ack[OF wp] .
      have "sent_frames (sink w') = sent_frames (sink w) @ (f # fs)"
        using fs(1) f(1) by simp
      moreover have "ack (ctxs w' to) = ack (ctxs w to) + of_nat (length (concat (map frame_payload (f # fs))))"
        using fs(2) a1 f(2) cklen by simp
      moreover have "(case r of
           Inr u \<Rightarrow> map frame_payload (f # fs) = chunks MSS_VAL ?rest
         | Inl err \<Rightarrow> (\<exists>k<length (chunks MSS_VAL ?rest).
                        map frame_payload (f # fs) = take k (chunks MSS_VAL ?rest)))"
      proof (cases r)
        case (Inl err)
        with fs(3) obtain k where "k<length (chunks MSS_VAL (drop (?off + ?ss) buf))"
          "map frame_payload fs = take k (chunks MSS_VAL (drop (?off + ?ss) buf))" by auto
        then have "Suc k < length (chunks MSS_VAL ?rest) \<and>
             map frame_payload (f # fs) = take (Suc k) (chunks MSS_VAL ?rest)"
          unfolding ck using f(2) by simp
        then show ?thesis using Inl by auto
      next
        case (Inr u')
        with fs(3) f(2) show ?thesis unfolding ck by simp
      qed
      ultimately show ?thesis by blast
    qed
  qed
qed

lemma frame_seq_built:
  "frame_tcp f = Some (build_tcp ctx fl pl) \<Longrightarrow> frame_seq f = Some (seq ctx)"
  by (simp add: frame_seq_def build_tcp_def)

lemma write_packet_af:
  assumes "logpkt_write_packet e p c fl pl w = (r, w')"
  shows "af (ctxs w' c') = af (ctxs w c')"
proof (cases r)
  case (Inl err)
  with write_packet_Inl(2)[of e p c fl pl w err w'] assms show ?thesis by auto
next
  case (Inr u)
  with write_packet_Inr(2)[of e p c fl pl w u w'] assms show ?thesis by auto
qed

lemma loop_seq_plain:
  assumes "write_payload_loop e p from to fl buf off ss plen w = (Inr u, w')"
    and "fl AND TH_SYN = 0" and "off + ss + plen = length buf"
  shows "seq (ctxs w' c) = (if c = from then seq (ctxs w c) + of_nat plen else seq (ctxs w c))"
  using assms
proof (induction e p "from" to fl buf off ss plen w arbitrary: w' rule: write_payload_loop.induct)
  case (1 e p "from" to fl buf off ss plen w)
  let ?off = "off + ss"
  let ?ss = "if MSS_VAL < plen then MSS_VAL else plen"
  let ?chunk = "take ?ss (drop ?off buf)"
  show ?case
  proof (cases "0 < plen")
    case False
    then show ?thesis using "1.prems" by (simp add: write_payload_loop.simps)
  next
    case True
    obtain r1 w1 where wp: "logpkt_write_packet e p from fl ?chunk w = (r1, w1)"
      by (cases "logpkt_write_packet e p from fl ?chunk w") auto
    show ?thesis
    proof (cases r1)
      case (Inl err)
      then show ?thesis
        using "1.prems"(1) True wp by (simp add: write_payload_loop.simps Let_def)
    next
      case (Inr u1)
      let ?w2 = "set_ack to (ack (ctxs w1 to) + of_nat ?ss) w1"
      have rec: "write_payload_loop e p from to fl buf ?off ?ss (plen - ?ss) ?w2 = (Inr u, w')"
        using "1.prems"(1) True wp Inr
        by (simp add: write_payload_loop.simps[of _ _ _ _ _ _ off] Let_def)
      have inv: "?off + ?ss + (plen - ?ss) = length buf"
        using "1.prems"(3) by auto
      have ih: "seq (ctxs w' c) =
          (if c = from then seq (ctxs ?w2 c) + of_nat (plen - ?ss) else seq (ctxs ?w2 c))"
        using "1.IH"[OF True refl refl wp[symmetric] Inr rec "1.prems"(2) inv] .
      have len: "length ?chunk = ?ss" using "1.prems"(3) by auto
      have s1: "seq (ctxs w1 c) = (if c = from then seq (ctxs w from) + of_nat ?ss else seq (ctxs w c))"
        using write_packet_Inr(2)[OF wp[unfolded Inr]] "1.prems"(2) len
        by (simp add: base_seq_def)
      have sum: "of_nat ?ss + of_nat (plen - ?ss) = (of_nat plen :: u32)"
        by (simp flip: of_nat_add)
      show ?thesis
      proof (cases "c = from")
        case True
        have "seq (ctxs w' c) = seq (ctxs w1 c) + of_nat (plen - ?ss)"
          using ih True by simp
        also have "seq (ctxs w1 c) = seq (ctxs w from) + of_nat ?ss"
          using s1 True by simp
        also have "seq (ctxs w from) + of_nat ?ss + of_nat (plen - ?ss)
            = seq (ctxs w from) + (of_nat ?ss + of_nat (plen - ?ss))"
          by (simp only: add.assoc)
        finally show ?thesis using True sum by simp
      next
        case False
        then show ?thesis using ih s1 by simp
      qed
    qed
  qed
qed

lemma loop_seq_syn:
  assumes "write_payload_loop e p from to fl buf off ss plen w = (r, w')"
    and "fl AND TH_SYN \<noteq> 0"
  shows "\<exists>fs. sent_frames (sink w') = sent_frames (sink w) @ fs
      \<and> (\<forall>i<length fs. frame_seq (fs ! i)
             = Some (prand e (n_prand w + i * draws fl (af (ctxs w from)))))"
  using assms
proof (induction e p "from" to fl buf off ss plen w arbitrary: r w' rule: write_payload_loop.induct)
  case (1 e p "from" to fl buf off ss plen w)
  let ?off = "off + ss"
  let ?ss = "if MSS_VAL < plen then MSS_VAL else plen"
  let ?chunk = "take ?ss (drop ?off buf)"
  let ?d = "draws fl (af (ctxs w from))"
  show ?case
  proof (cases "0 < plen")
    case False
    then have "w' = w" using "1.prems" by (simp add: write_payload_loop.simps)
    then show ?thesis by simp
  next
    case True
    obtain r1 w1 where wp: "logpkt_write_packet e p from fl ?chunk w = (r1, w1)"
      by (cases "logpkt_write_packet e p from fl ?chunk w") auto
    show ?thesis
    proof (cases r1)
      case (Inl err)
      then have "w' = w1"
        using "1.prems"(1) True wp by (simp add: write_payload_loop.simps Let_def)
      moreover have "sent_frames (sink w1) = sent_frames (sink w)"
        using write_packet_Inl(1) wp Inl by blast
      ultimately show ?thesis by simp
    next
      case (Inr u1)
      let ?w2 = "set_ack to (ack (ctxs w1 to) + of_nat ?ss) w1"
      have rec: "write_payload_loop e p from to fl buf ?off ?ss (plen - ?ss) ?w2 = (r, w')"
        using "1.prems"(1) True wp Inr
        by (simp add: write_payload_loop.simps[of _ _ _ _ _ _ off] Let_def)
      from "1.IH"[OF True refl refl wp[symmetric] Inr rec "1.prems"(2)]
      obtain fs where fs: "sent_frames (sink w') = sent_frames (sink ?w2) @ fs"
        "\<forall>i<length fs. frame_seq (fs ! i)
             = Some (prand e (n_prand ?w2 + i * draws fl (af (ctxs ?w2 from))))"
        by blast
      from write_packet_Inr(1)[OF wp[unfolded Inr]] obtain f where f:
        "sent_frames (sink w1) = sent_frames (sink w) @ [f]"
        "frame_seq f = Some (prand e (n_prand w))"
        using frame_seq_built "1.prems"(2) by (fastforce simp: base_seq_def)
      have np: "n_prand ?w2 = n_prand w + ?d"
        using write_packet_Inr(4)[OF wp[unfolded Inr]] by simp
      have afeq: "af (ctxs ?w2 from) = af (ctxs w from)"
        using write_packet_af[OF wp] by simp
      have "sent_frames (sink w') = sent_frames (sink w) @ (f # fs)"
        using fs(1) f(1) by simp
      moreover have "\<forall>i<length (f # fs). frame_seq ((f # fs) ! i) = Some (prand e (n_prand w + i * ?d))"
      proof (intro allI impI)
        fix i assume i: "i < length (f # fs)"
        show "frame_seq ((f # fs) ! i) = Some (prand e (n_prand w + i * ?d))"
        proof (cases i)
          case 0
          then show ?thesis using f(2) by simp
        next
          case (Suc j)
          then have "j < length fs" using i by simp
          with fs(2) have "frame_seq (fs ! j) = Some (prand e (n_prand ?w2 + j * draws fl (af (ctxs ?w2 from))))"
            by blast
          then show ?thesis unfolding np afeq Suc by (simp add: add.assoc)
        qed
      qed
      ultimately show ?thesis by blast
    qed
  qed
qed

lemma ext_call_ok: "\<forall>n. ext_ok e n \<Longrightarrow> ext_call e w = (True, w\<lparr>n_ext := Suc (n_ext w)\<rparr>)"
  by (simp add: ext_call_def)

lemma write_packet_succeeds:
  assumes "\<forall>n. ext_ok e n"
  shows "fst (logpkt_write_packet e p c fl pl w) = Inr ()"
  using assms
  by (simp add: logpkt_write_packet_def logpkt_build_packet_def logpkt_build_ip_def
      libnet_build_def ext_call_ok libnet_get_prand_def logpkt_write_pcap_record_def
      libnet_write_def Let_def split: prod.splits)

lemma loop_succeeds:
  assumes "\<forall>n. ext_ok e n"
  shows "fst (write_payload_loop e p from to fl buf off ss plen w) = Inr ()"
  using assms
proof (induction e p "from" to fl buf off ss plen w rule: write_payload_loop.induct)
  case (1 e p "from" to fl buf off ss plen w)
  let ?off = "off + ss"
  let ?ss = "if MSS_VAL < plen then MSS_VAL else plen"
  let ?chunk = "take ?ss (drop ?off buf)"
  show ?case
  proof (cases "0 < plen")
    case False
    then show ?thesis by (simp add: write_payload_loop.simps)
  next
    case True
    obtain r1 w1 where wp: "logpkt_write_packet e p from fl ?chunk w = (r1, w1)"
      by (cases "logpkt_write_packet e p from fl ?chunk w") auto
    then have r1: "r1 = Inr ()"
      using write_packet_succeeds[OF "1.prems", of p "from" fl ?chunk w] by simp
    show ?thesis
      using "1.IH"[OF True refl refl wp[symmetric] r1 "1.prems"] True wp r1
      by (simp add: write_payload_loop.simps[of _ _ _ _ _ _ off] Let_def)
  qed
qed

lemma write_payload_succeeds:
  assumes "\<forall>n. ext_ok e n"
  shows "fst (logpkt_write_payload e p from to fl pl w) = Inr ()"
proof -
  obtain r1 w1 where l: "write_payload_loop e p from to fl pl 0 0 (length pl) w = (r1, w1)"
    by (cases "write_payload_loop e p from to fl pl 0 0 (length pl) w") auto
  then have "r1 = Inr ()" using loop_succeeds[OF assms, of p "from" to fl pl 0 0 "length pl" w] by simp
  then show ?thesis
    using l write_packet_succeeds[OF assms] by (simp add: logpkt_write_payload_def)
qed

lemma TH_ACK_no_SYN: "TH_ACK AND TH_SYN = 0"
  by (simp add: TH_ACK_def TH_SYN_def)

lemma write_payload_InrE:
  assumes "logpkt_write_payload e p from to fl P w = (Inr u, w')"
  obtains u1 w1 where "write_payload_loop e p from to fl P 0 0 (length P) w = (Inr u1, w1)"
    and "logpkt_write_packet e p to TH_ACK [] w1 = (Inr u, w')"
  using assms by (auto simp: logpkt_write_payload_def split: prod.splits sum.splits)

lemma write_payload_InlE:
  assumes "logpkt_write_payload e p from to fl P w = (Inl err, w')"
  obtains (in_loop) "write_payload_loop e p from to fl P 0 0 (length P) w = (Inl err, w')"
  | (in_ack) u1 w1 where "write_payload_loop e p from to fl P 0 0 (length P) w = (Inr u1, w1)"
    and "logpkt_write_packet e p to TH_ACK [] w1 = (Inl err, w')"
  using assms by (auto simp: logpkt_write_payload_def split: prod.splits sum.splits)

lemma ack_packet_Inr:
  assumes "logpkt_write_packet e p c TH_ACK [] w = (Inr u, w')"
  shows "ctxs w' = ctxs w"
    and "\<exists>a. sent_frames (sink w') = sent_frames (sink w) @ [a]
           \<and> frame_tcp a = Some (build_tcp (ctxs w c) TH_ACK [])"
proof -
  have b: "base_seq e TH_ACK c w = seq (ctxs w c)"
    by (simp add: base_seq_def TH_ACK_no_SYN)
  show "ctxs w' = ctxs w"
    using write_packet_Inr(2)[OF assms] by (simp add: b)
  show "\<exists>a. sent_frames (sink w') = sent_frames (sink w) @ [a]
           \<and> frame_tcp a = Some (build_tcp (ctxs w c) TH_ACK [])"
    using write_packet_Inr(1)[OF assms] by (simp add: b)
qed

lemma write_payload_Inr_frames:
  assumes "logpkt_write_payload e p from to fl P w = (Inr u, w')"
  shows "\<exists>ds a. sent_frames (sink w') = sent_frames (sink w) @ ds @ [a]
      \<and> map frame_payload ds = chunks MSS_VAL P
      \<and> frame_tcp a = Some (build_tcp (ctxs w' to) TH_ACK [])
      \<and> ack (ctxs w' to) = ack (ctxs w to) + of_nat (length P)"
proof -
  from assms obtain u1 w1 where
    l: "write_payload_loop e p from to fl P 0 0 (length P) w = (Inr u1, w1)" and
    a: "logpkt_write_packet e p to TH_ACK [] w1 = (Inr u, w')"
    by (rule write_payload_InrE)
  from loop_frames[OF l] obtain ds where ds:
    "sent_frames (sink w1) = sent_frames (sink w) @ ds"
    "ack (ctxs w1 to) = ack (ctxs w to) + of_nat (length (concat (map frame_payload ds)))"
    "map frame_payload ds = chunks MSS_VAL P"
    by auto
  have "concat (map frame_payload ds) = P"
    unfolding ds(3) by (rule concat_chunks) (simp add: MSS_VAL_def)
  with ds(2) have ack1: "ack (ctxs w1 to) = ack (ctxs w to) + of_nat (length P)" by simp
  from ack_packet_Inr[OF a] obtain k where
    "ctxs w' = ctxs w1" "sent_frames (sink w') = sent_frames (sink w1) @ [k]"
    "frame_tcp k = Some (build_tcp (ctxs w1 to) TH_ACK [])" by blast
  then show ?thesis using ds(1,3) ack1 by auto
qed

lemma write_payload_Inl_frames:
  assumes "logpkt_write_payload e p from to fl P w = (Inl err, w')"
  shows "\<exists>ds k. sent_frames (sink w') = sent_frames (sink w) @ ds
      \<and> k \<le> length (chunks MSS_VAL P) \<and> map frame_payload ds = take k (chunks MSS_VAL P)
      \<and> ack (ctxs w' to) = ack (ctxs w to) + of_nat (length (concat (map frame_payload ds)))"
  using assms
proof (cases rule: write_payload_InlE)
  case in_loop
  from loop_frames[OF in_loop] show ?thesis by (auto intro: less_imp_le)
next
  case (in_ack u1 w1)
  from loop_frames[OF in_ack(1)] obtain ds where ds:
    "sent_frames (sink w1) = sent_frames (sink w) @ ds"
    "ack (ctxs w1 to) = ack (ctxs w to) + of_nat (length (concat (map frame_payload ds)))"
    "map frame_payload ds = chunks MSS_VAL P"
    by auto
  have "sent_frames (sink w') = sent_frames (sink w1)"
    using write_packet_Inl(1)[OF in_ack(2)] .
  moreover have "ack (ctxs w' to) = ack (ctxs w1 to)"
    using write_packet_ack[OF in_ack(2)] .
  ultimately show ?thesis using ds
    by (intro exI[of _ ds] exI[of _ "length (chunks MSS_VAL P)"]) simp
qed

lemma unat_plus_of_nat: "unat (a + of_nat n :: u32) = (unat a + n) mod 2 ^ 32"
  by (simp add: unat_word_ariths unat_of_nat mod_simps)

text \<open>
  C1. As stated the claim fails in its second half: when the flags include SYN,
  \<open>logpkt_build_packet\<close> overwrites the sender's sequence counter with a random
  value for every packet it builds, so after a non-empty payload the counter is not the
  prior value plus the payload length (see the counterexample below). Amended: for
  every pair of context addresses \<open>from\<close> and \<open>to\<close> (the same context
  included), every payload and all flags, after a successful
  \<open>logpkt_write_payload\<close> the receiver's acknowledgment counter equals its prior
  value plus the payload length, modulo \<open>2 ^ 32\<close>; the sender's sequence counter
  equals its prior value plus the payload length, modulo \<open>2 ^ 32\<close>, whenever the
  flags do not include SYN or the payload is empty. The chunking plays no role.
\<close>

theorem write_payload_counters:
  assumes "logpkt_write_payload e p from to fl P w = (Inr u, w')"
  shows "ack (ctxs w' to) = ack (ctxs w to) + of_nat (length P)
       \<and> unat (ack (ctxs w' to)) = (unat (ack (ctxs w to)) + length P) mod 2 ^ 32
       \<and> (fl AND TH_SYN = 0 \<or> P = [] \<longrightarrow>
            seq (ctxs w' from) = seq (ctxs w from) + of_nat (length P)
          \<and> unat (seq (ctxs w' from)) = (unat (seq (ctxs w from)) + length P) mod 2 ^ 32)"
proof -
  from assms obtain u1 w1 where
    l: "write_payload_loop e p from to fl P 0 0 (length P) w = (Inr u1, w1)" and
    a: "logpkt_write_packet e p to TH_ACK [] w1 = (Inr u, w')"
    by (rule write_payload_InrE)
  have c: "ctxs w' = ctxs w1" using ack_packet_Inr(1)[OF a] .
  from write_payload_Inr_frames[OF assms]
  have k: "ack (ctxs w' to) = ack (ctxs w to) + of_nat (length P)" by blast
  have s: "seq (ctxs w' from) = seq (ctxs w from) + of_nat (length P)"
    if h: "fl AND TH_SYN = 0 \<or> P = []"
  proof (cases "P = []")
    case True
    then have "w1 = w" using l by (simp add: write_payload_loop.simps)
    then show ?thesis using c True by simp
  next
    case False
    then have "fl AND TH_SYN = 0" using h by simp
    from loop_seq_plain[OF l this, of "from"] c show ?thesis by simp
  qed
  show ?thesis using s k by (simp add: unat_plus_of_nat)
qed

text \<open>
  C1, witness: the scenario of the specification, \<open>send_payload(A, B, PSH|ACK, "hello")\<close>,
  and a SYN-flagged call with the empty payload, which leaves A's sequence at 1000.
\<close>

theorem write_payload_counters_witness:
  "logpkt_write_payload env_ok True 0 1 0x18 [0x68, 0x65, 0x6c, 0x6c, 0x6f] world_AB
     = (Inr (), snd (logpkt_write_payload env_ok True 0 1 0x18 [0x68, 0x65, 0x6c, 0x6c, 0x6f] world_AB))
   \<and> (0x18 :: u8) AND TH_SYN = 0
   \<and> ack (ctxs (snd (logpkt_write_payload env_ok True 0 1 0x18 [0x68, 0x65, 0x6c, 0x6c, 0x6f] world_AB)) 1) = 2005
   \<and> seq (ctxs (snd (logpkt_write_payload env_ok True 0 1 0x18 [0x68, 0x65, 0x6c, 0x6c, 0x6f] world_AB)) 0) = 1005
   \<and> logpkt_write_payload env_ok True 0 1 TH_SYN [] world_AB
     = (Inr (), snd (logpkt_write_payload env_ok True 0 1 TH_SYN [] world_AB))
   \<and> ack (ctxs (snd (logpkt_write_payload env_ok True 0 1 TH_SYN [] world_AB)) 1) = 2000
   \<and> seq (ctxs (snd (logpkt_write_payload env_ok True 0 1 TH_SYN [] world_AB)) 0) = 1000"
proof -
  let ?r = "logpkt_write_payload env_ok True 0 1 0x18 [0x68, 0x65, 0x6c, 0x6c, 0x6f] world_AB"
  let ?s = "logpkt_write_payload env_ok True 0 1 TH_SYN [] world_AB"
  have "fst ?r = Inr ()"
    by (rule write_payload_succeeds) (simp add: env_ok_def)
  then have h1: "?r = (Inr (), snd ?r)" by (metis prod.collapse)
  have h2: "(0x18 :: u8) AND TH_SYN = 0" by (simp add: TH_SYN_def)
  have "fst ?s = Inr ()"
    by (rule write_payload_succeeds) (simp add: env_ok_def)
  then have h3: "?s = (Inr (), snd ?s)" by (metis prod.collapse)
  have r: "ack (ctxs (snd ?r) 1) = 2005 \<and> seq (ctxs (snd ?r) 0) = 1005"
    using write_payload_counters[OF h1] h2
    by (simp add: world_AB_def ctx_A_def ctx_B_def)
  have s: "ack (ctxs (snd ?s) 1) = 2000 \<and> seq (ctxs (snd ?s) 0) = 1000"
    using write_payload_counters[OF h3]
    by (simp add: world_AB_def ctx_A_def ctx_B_def)
  from h1 h2 h3 r s show ?thesis by blast
qed

text \<open>
  C1, counterexample: with the flags \<open>TH_SYN\<close> and a one-byte payload the call
  succeeds and context A, whose sequence was 1000, ends with sequence 8 (the random
  draw 7 plus one), not 1001.
\<close>

theorem write_payload_syn_counterexample:
  "fst (logpkt_write_payload env_ok True 0 1 TH_SYN [0x68] world_AB) = Inr ()
   \<and> seq (ctxs (snd (logpkt_write_payload env_ok True 0 1 TH_SYN [0x68] world_AB)) 0)
       \<noteq> seq (ctxs world_AB 0) + of_nat (length [0x68 :: u8])"
  by (simp add: logpkt_write_payload_def write_payload_loop.simps logpkt_write_packet_def
      logpkt_build_packet_def logpkt_build_ip_def libnet_build_def ext_call_def
      libnet_get_prand_def logpkt_write_pcap_record_def libnet_clear_packet_def
      set_seq_def set_ack_def env_ok_def world_AB_def ctx_A_def ctx_B_def
      TH_SYN_def TH_ACK_def MSS_VAL_def Let_def)

text \<open>
  C2. A successful \<open>logpkt_write_payload\<close> dispatches, before its final frame,
  exactly \<open>ceil (len P / 1420)\<close> data frames; each carries a non-empty chunk of at
  most 1420 bytes, and the chunks concatenated in dispatch order are \<open>P\<close>. This
  holds for every length of \<open>P\<close>, in particular for lengths above 1420.
\<close>

theorem write_payload_segmentation:
  assumes "logpkt_write_payload e p from to fl P w = (Inr u, w')"
  shows "\<exists>ds a. sent_frames (sink w') = sent_frames (sink w) @ ds @ [a]
      \<and> length ds = (length P + 1419) div 1420
      \<and> (\<forall>d\<in>set ds. frame_payload d \<noteq> [] \<and> length (frame_payload d) \<le> 1420)
      \<and> concat (map frame_payload ds) = P"
proof -
  from write_payload_Inr_frames[OF assms] obtain ds a where
    f: "sent_frames (sink w') = sent_frames (sink w) @ ds @ [a]"
    and c: "map frame_payload ds = chunks MSS_VAL P" by blast
  have "length ds = length (chunks MSS_VAL P)" using c by (metis length_map)
  then have n: "length ds = (length P + 1419) div 1420"
    by (simp add: length_chunks MSS_VAL_def)
  have b: "\<forall>d\<in>set ds. frame_payload d \<noteq> [] \<and> length (frame_payload d) \<le> 1420"
  proof
    fix d assume "d \<in> set ds"
    then have "frame_payload d \<in> set (chunks MSS_VAL P)" using c by (metis image_eqI set_map)
    then show "frame_payload d \<noteq> [] \<and> length (frame_payload d) \<le> 1420"
      using chunks_bounds[of MSS_VAL "frame_payload d" P] by (simp add: MSS_VAL_def)
  qed
  have "concat (map frame_payload ds) = P"
    unfolding c by (rule concat_chunks) (simp add: MSS_VAL_def)
  with f n b show ?thesis by blast
qed

text \<open>C2, witness: a payload of 1421 bytes gives two data frames.\<close>

theorem write_payload_segmentation_witness:
  "logpkt_write_payload env_ok True 0 1 0x18 (replicate 1421 0x41) world_AB
     = (Inr (), snd (logpkt_write_payload env_ok True 0 1 0x18 (replicate 1421 0x41) world_AB))
   \<and> (\<exists>ds a. sent_frames (sink (snd (logpkt_write_payload env_ok True 0 1 0x18 (replicate 1421 0x41) world_AB)))
         = ds @ [a]
      \<and> length ds = 2
      \<and> (\<forall>d\<in>set ds. frame_payload d \<noteq> [] \<and> length (frame_payload d) \<le> 1420)
      \<and> concat (map frame_payload ds) = replicate 1421 0x41)"
proof -
  let ?r = "logpkt_write_payload env_ok True 0 1 0x18 (replicate 1421 0x41) world_AB"
  have "fst ?r = Inr ()"
    by (rule write_payload_succeeds) (simp add: env_ok_def)
  then have h1: "?r = (Inr (), snd ?r)" by (metis prod.collapse)
  show ?thesis
    using write_payload_segmentation[OF h1] h1
    by (simp add: world_AB_def)
qed

text \<open>
  C3. A successful \<open>logpkt_write_payload\<close>, the empty payload included, dispatches
  after the data frames (one per chunk of the payload) exactly one more frame; it is
  built from the receiver context \<open>to\<close>, its TCP flags are \<open>TH_ACK\<close> alone, its
  payload is empty, and its acknowledgment number is the receiver's updated counter,
  the prior value plus the payload length.
\<close>

theorem write_payload_trailing_ack:
  assumes "logpkt_write_payload e p from to fl P w = (Inr u, w')"
  shows "\<exists>ds a t. sent_frames (sink w') = sent_frames (sink w) @ ds @ [a]
      \<and> map frame_payload ds = chunks MSS_VAL P
      \<and> frame_tcp a = Some t
      \<and> t = build_tcp (ctxs w' to) TH_ACK []
      \<and> th_flags t = TH_ACK \<and> th_payload t = []
      \<and> th_ack t = ack (ctxs w' to)
      \<and> ack (ctxs w' to) = ack (ctxs w to) + of_nat (length P)"
proof -
  from write_payload_Inr_frames[OF assms] obtain ds a where
    "sent_frames (sink w') = sent_frames (sink w) @ ds @ [a]"
    "map frame_payload ds = chunks MSS_VAL P"
    "frame_tcp a = Some (build_tcp (ctxs w' to) TH_ACK [])"
    "ack (ctxs w' to) = ack (ctxs w to) + of_nat (length P)" by blast
  then show ?thesis
    by (intro exI[of _ ds] exI[of _ a] exI[of _ "build_tcp (ctxs w' to) TH_ACK []"])
       (simp add: build_tcp_def)
qed

text \<open>C3, witness: the empty payload gives the acknowledgment frame alone.\<close>

theorem write_payload_trailing_ack_witness:
  "logpkt_write_payload env_ok True 0 1 0x18 [] world_AB
     = (Inr (), snd (logpkt_write_payload env_ok True 0 1 0x18 [] world_AB))
   \<and> (\<exists>a t. sent_frames (sink (snd (logpkt_write_payload env_ok True 0 1 0x18 [] world_AB))) = [a]
      \<and> frame_tcp a = Some t \<and> th_flags t = TH_ACK \<and> th_payload t = []
      \<and> th_ack t = 2000)"
proof -
  let ?r = "logpkt_write_payload env_ok True 0 1 0x18 [] world_AB"
  have "fst ?r = Inr ()"
    by (rule write_payload_succeeds) (simp add: env_ok_def)
  then have h1: "?r = (Inr (), snd ?r)" by (metis prod.collapse)
  from write_payload_trailing_ack[OF h1] obtain ds a t where
    x: "sent_frames (sink (snd ?r)) = sent_frames (sink world_AB) @ ds @ [a]"
      "map frame_payload ds = chunks MSS_VAL []"
      "frame_tcp a = Some t" "th_flags t = TH_ACK" "th_payload t = []"
      "th_ack t = ack (ctxs (snd ?r) 1)"
      "ack (ctxs (snd ?r) 1) = ack (ctxs world_AB 1) + of_nat (length ([] :: u8 list))"
    by blast
  have "ds = []" using x(2) by simp
  moreover have "th_ack t = 2000" using x(6,7) by (simp add: world_AB_def ctx_B_def)
  ultimately show ?thesis using h1 x by (simp add: world_AB_def)
qed

text \<open>
  C10. When \<open>logpkt_write_payload\<close> fails, the frames that reached the sink are the
  first \<open>k\<close> chunks of the payload for some \<open>k\<close>, and the receiver's
  acknowledgment counter has grown by exactly the total length of those chunks: the
  chunk whose packet failed adds nothing.
\<close>

theorem write_payload_partial_ack:
  assumes "logpkt_write_payload e p from to fl P w = (Inl err, w')"
  shows "\<exists>ds k. sent_frames (sink w') = sent_frames (sink w) @ ds
      \<and> k \<le> length (chunks MSS_VAL P) \<and> map frame_payload ds = take k (chunks MSS_VAL P)
      \<and> ack (ctxs w' to) = ack (ctxs w to) + of_nat (length (concat (map frame_payload ds)))"
  using write_payload_Inl_frames[OF assms] .

lemmas run_defs =
  logpkt_write_payload_def write_payload_loop.simps logpkt_write_packet_def
  logpkt_build_packet_def logpkt_build_ip_def libnet_build_def ext_call_def
  libnet_get_prand_def logpkt_write_pcap_record_def libnet_write_def libnet_clear_packet_def
  set_seq_def set_ack_def TH_SYN_def TH_ACK_def MSS_VAL_def Let_def

text \<open>
  C10, witness: 1421 bytes to the capture file, the collaborators failing from their
  seventh call on: the first chunk is written, the second packet fails at its TCP
  block, and B's acknowledgment counter is 2000 + 1420.
\<close>

theorem write_payload_partial_ack_witness:
  "logpkt_write_payload (env_fail_from 6) True 0 1 0x18 (replicate 1421 0x41) world_AB
     = (Inl Build_tcp_failed,
        snd (logpkt_write_payload (env_fail_from 6) True 0 1 0x18 (replicate 1421 0x41) world_AB))
   \<and> (\<exists>ds. sent_frames (sink (snd (logpkt_write_payload (env_fail_from 6) True 0 1 0x18
                 (replicate 1421 0x41) world_AB))) = ds
         \<and> map frame_payload ds = [replicate 1420 0x41]
         \<and> ack (ctxs (snd (logpkt_write_payload (env_fail_from 6) True 0 1 0x18
                 (replicate 1421 0x41) world_AB)) 1) = 2000 + of_nat (length (concat (map frame_payload ds))))
   \<and> ack (ctxs (snd (logpkt_write_payload (env_fail_from 6) True 0 1 0x18
                 (replicate 1421 0x41) world_AB)) 1) = 3420"
proof -
  let ?r = "logpkt_write_payload (env_fail_from 6) True 0 1 0x18 (replicate 1421 0x41) world_AB"
  have "fst ?r = Inl Build_tcp_failed"
    by (simp add: run_defs env_fail_from_def world_AB_def)
  then have h1: "?r = (Inl Build_tcp_failed, snd ?r)" by (metis prod.collapse)
  have fr: "map frame_payload (sent_frames (sink (snd ?r))) = [replicate 1420 0x41]"
    by (simp add: run_defs env_fail_from_def world_AB_def ctx_A_def frame_payload_def
        build_tcp_def build_ipv4_def build_ethernet_def)
  from write_payload_partial_ack[OF h1] obtain ds where
    x: "sent_frames (sink (snd ?r)) = sent_frames (sink world_AB) @ ds"
       "ack (ctxs (snd ?r) 1) = ack (ctxs world_AB 1) + of_nat (length (concat (map frame_payload ds)))"
    by blast
  have ds: "sent_frames (sink (snd ?r)) = ds" using x(1) by (simp add: world_AB_def)
  have a: "ack (ctxs (snd ?r) 1) = 2000 + of_nat (length (concat (map frame_payload ds)))"
    using x(2) by (simp add: world_AB_def ctx_B_def)
  have "ack (ctxs (snd ?r) 1) = 3420"
    using a fr unfolding ds[symmetric] by simp
  with h1 ds a fr show ?thesis by (metis (no_types))
qed

text \<open>
  C9. When \<open>logpkt_build_packet\<close> fails at any of its three construction steps,
  the context's sequence counter is not advanced by the payload length: without SYN it
  is unchanged, with SYN it is the random value drawn before the first block is built.
  In a successful SYN-flagged \<open>logpkt_write_payload\<close> every data frame carries its
  own random draw as sequence number (the draws of one packet are the sequence and, for
  IPv4, the identification).
\<close>

theorem syn_rerandomizes_seq:
  "(logpkt_build_packet e c fl pl w = (Inl err, w1) \<longrightarrow>
      seq (ctxs w1 c) = (if fl AND TH_SYN \<noteq> 0 then prand e (n_prand w) else seq (ctxs w c)))
   \<and> (logpkt_write_payload e2 p from to fl2 P w2 = (Inr u, w3) \<and> fl2 AND TH_SYN \<noteq> 0 \<longrightarrow>
        (\<exists>ds a. sent_frames (sink w3) = sent_frames (sink w2) @ ds @ [a]
           \<and> map frame_payload ds = chunks MSS_VAL P
           \<and> (\<forall>i<length ds. frame_seq (ds ! i)
                 = Some (prand e2 (n_prand w2 + i * (if af (ctxs w2 from) = AF_INET then 2 else 1))))))"
proof (intro conjI impI)
  assume "logpkt_build_packet e c fl pl w = (Inl err, w1)"
  from build_packet_Inl(1)[OF this]
  show "seq (ctxs w1 c) = (if fl AND TH_SYN \<noteq> 0 then prand e (n_prand w) else seq (ctxs w c))"
    by (simp add: base_seq_def)
next
  assume h: "logpkt_write_payload e2 p from to fl2 P w2 = (Inr u, w3) \<and> fl2 AND TH_SYN \<noteq> 0"
  then have syn: "fl2 AND TH_SYN \<noteq> 0" by simp
  from h obtain u1 w' where
    l: "write_payload_loop e2 p from to fl2 P 0 0 (length P) w2 = (Inr u1, w')" and
    k: "logpkt_write_packet e2 p to TH_ACK [] w' = (Inr u, w3)"
    by (auto elim: write_payload_InrE)
  from ack_packet_Inr(2)[OF k] obtain a where
    a: "sent_frames (sink w3) = sent_frames (sink w') @ [a]" by blast
  from loop_frames[OF l] obtain fs where
    fs: "sent_frames (sink w') = sent_frames (sink w2) @ fs"
        "map frame_payload fs = chunks MSS_VAL P" by auto
  from loop_seq_syn[OF l syn] obtain fs' where
    fs': "sent_frames (sink w') = sent_frames (sink w2) @ fs'"
      "\<forall>i<length fs'. frame_seq (fs' ! i)
             = Some (prand e2 (n_prand w2 + i * draws fl2 (af (ctxs w2 from))))" by blast
  have eq: "fs' = fs" using fs(1) fs'(1) by simp
  have d: "draws fl2 (af (ctxs w2 from)) = (if af (ctxs w2 from) = AF_INET then 2 else 1)"
    using syn by (simp add: draws_def)
  have "sent_frames (sink w3) = sent_frames (sink w2) @ fs @ [a]"
    using a fs(1) by simp
  moreover have "\<forall>i<length fs. frame_seq (fs ! i)
        = Some (prand e2 (n_prand w2 + i * (if af (ctxs w2 from) = AF_INET then 2 else 1)))"
    using fs'(2) unfolding eq d .
  ultimately show "\<exists>ds a. sent_frames (sink w3) = sent_frames (sink w2) @ ds @ [a]
           \<and> map frame_payload ds = chunks MSS_VAL P
           \<and> (\<forall>i<length ds. frame_seq (ds ! i)
                 = Some (prand e2 (n_prand w2 + i * (if af (ctxs w2 from) = AF_INET then 2 else 1))))"
    using fs(2) by blast
qed

text \<open>
  C9, witness: a SYN packet whose TCP block fails leaves A with sequence 7, the draw;
  a SYN-flagged payload of 1421 bytes gives data frames with sequences 7 and 207, the
  draws 0 and 2.
\<close>

theorem syn_rerandomizes_seq_witness:
  "logpkt_build_packet (env_fail_from 0) 0 TH_SYN [0x68] world_AB
     = (Inl Build_tcp_failed, snd (logpkt_build_packet (env_fail_from 0) 0 TH_SYN [0x68] world_AB))
   \<and> seq (ctxs world_AB 0) = 1000
   \<and> seq (ctxs (snd (logpkt_build_packet (env_fail_from 0) 0 TH_SYN [0x68] world_AB)) 0) = 7
   \<and> logpkt_write_payload env_ok True 0 1 TH_SYN (replicate 1421 0x41) world_AB
     = (Inr (), snd (logpkt_write_payload env_ok True 0 1 TH_SYN (replicate 1421 0x41) world_AB))
   \<and> TH_SYN AND TH_SYN \<noteq> 0
   \<and> (\<exists>d0 d1 a. sent_frames (sink (snd (logpkt_write_payload env_ok True 0 1 TH_SYN
                       (replicate 1421 0x41) world_AB))) = [d0, d1, a]
         \<and> frame_seq d0 = Some 7 \<and> frame_seq d1 = Some 207)"
proof -
  let ?b = "logpkt_build_packet (env_fail_from 0) 0 TH_SYN [0x68] world_AB"
  let ?r = "logpkt_write_payload env_ok True 0 1 TH_SYN (replicate 1421 0x41) world_AB"
  have "fst ?b = Inl Build_tcp_failed"
    by (simp add: run_defs env_fail_from_def world_AB_def)
  then have h1: "?b = (Inl Build_tcp_failed, snd ?b)" by (metis prod.collapse)
  have "fst ?r = Inr ()"
    by (rule write_payload_succeeds) (simp add: env_ok_def)
  then have h2: "?r = (Inr (), snd ?r)" by (metis prod.collapse)
  have h3: "TH_SYN AND TH_SYN \<noteq> 0" by (simp add: TH_SYN_def)
  note t = syn_rerandomizes_seq[of "env_fail_from 0" 0 TH_SYN "[0x68]" world_AB
      Build_tcp_failed "snd ?b" env_ok True 0 1 TH_SYN "replicate 1421 0x41" world_AB
      "()" "snd ?r"]
  from t h1 h3 have s: "seq (ctxs (snd ?b) 0) = 7"
    by (simp add: env_fail_from_def world_AB_def)
  from t h2 h3 obtain ds a where
    x: "sent_frames (sink (snd ?r)) = sent_frames (sink world_AB) @ ds @ [a]"
       "map frame_payload ds = chunks MSS_VAL (replicate 1421 0x41)"
       "\<forall>i<length ds. frame_seq (ds ! i)
           = Some (prand env_ok (n_prand world_AB + i * (if af (ctxs world_AB 0) = AF_INET then 2 else 1)))"
    by blast
  have "length ds = length (chunks MSS_VAL (replicate 1421 (0x41 :: u8)))"
    using x(2) by (metis length_map)
  then have len: "length ds = 2" by (simp add: length_chunks MSS_VAL_def)
  then obtain d0 d1 where ds: "ds = [d0, d1]"
    by (cases ds; cases "tl ds") auto
  have "frame_seq d0 = Some 7" "frame_seq d1 = Some 207"
    using x(3) unfolding ds by (auto simp: env_ok_def world_AB_def ctx_A_def nth_Cons')
  moreover have "sent_frames (sink (snd ?r)) = [d0, d1, a]"
    using x(1) ds by (simp add: world_AB_def)
  moreover have "seq (ctxs world_AB 0) = 1000" by (simp add: world_AB_def ctx_A_def)
  ultimately show ?thesis using h1 h2 h3 s by (metis (no_types))
qed

section \<open>Properties of the capture file\<close>

lemma length_hdr_bytes: "length (hdr_bytes en h) = sizeof_pcap_file_hdr_t"
  by (simp add: hdr_bytes_def enc32_def enc16_def sizeof_pcap_file_hdr_t_def Let_def)

lemma write_global_pcap_hdr_ok:
  assumes "\<forall>n. io sy n = IO_complete"
  shows "logpkt_write_global_pcap_hdr sy f = (Inr (), tick (put_bytes (hdr_bytes (byte_order sy) global_pcap_hdr) f))"
  using assms by (simp add: logpkt_write_global_pcap_hdr_def sys_write_def length_hdr_bytes)

lemma put_bytes_empty:
  "content f = [] \<Longrightarrow> pos f = 0 \<Longrightarrow> content (put_bytes bs f) = bs \<and> pos (put_bytes bs f) = length bs"
  by (simp add: put_bytes_def)

lemma open_fd_empty:
  assumes "\<forall>n. io sy n = IO_complete" and "content f = []"
  shows "\<exists>f'. logpkt_pcap_open_fd sy f = (Inr (), f')
          \<and> content f' = hdr_bytes (byte_order sy) global_pcap_hdr
          \<and> pos f' = sizeof_pcap_file_hdr_t"
  using assms
  by (simp add: logpkt_pcap_open_fd_def lseek_end_def write_global_pcap_hdr_ok tick_def
      put_bytes_def length_hdr_bytes)

lemma open_fd_magic:
  assumes "\<forall>n. io sy n = IO_complete"
    and "sizeof_pcap_file_hdr_t \<le> length (content f)"
    and "dec32 (byte_order sy) (take 4 (content f)) = PCAP_MAGIC"
  shows "\<exists>f'. logpkt_pcap_open_fd sy f = (Inr (), f')
          \<and> content f' = content f \<and> pos f' = length (content f)"
proof -
  have "content f \<noteq> []" using assms(2) by (auto simp: sizeof_pcap_file_hdr_t_def)
  with assms show ?thesis
  by (simp add: logpkt_pcap_open_fd_def lseek_end_def lseek_set_def sys_read_def tick_def
      sizeof_pcap_file_hdr_t_def Let_def min_def)
qed

lemma open_fd_foreign:
  assumes "\<forall>n. io sy n = IO_complete"
    and "sizeof_pcap_file_hdr_t \<le> length (content f)"
    and "dec32 (byte_order sy) (take 4 (content f)) \<noteq> PCAP_MAGIC"
  shows "\<exists>f'. logpkt_pcap_open_fd sy f = (Inr (), f')
          \<and> content f' = hdr_bytes (byte_order sy) global_pcap_hdr
          \<and> pos f' = sizeof_pcap_file_hdr_t"
proof -
  have "content f \<noteq> []" using assms(2) by (auto simp: sizeof_pcap_file_hdr_t_def)
  with assms show ?thesis
  by (simp add: logpkt_pcap_open_fd_def lseek_end_def lseek_set_def sys_read_def tick_def
      ftruncate0_def write_global_pcap_hdr_ok put_bytes_def length_hdr_bytes
      sizeof_pcap_file_hdr_t_def Let_def min_def)
qed

lemma magic_of_global_hdr:
  "dec32 en (take 4 (hdr_bytes en global_pcap_hdr)) = PCAP_MAGIC"
  by (cases en)
     (simp_all add: hdr_bytes_def enc32_def dec32_def global_pcap_hdr_def PCAP_MAGIC_def
      word_rcat_def Let_def)

lemma hdr_bytes_little:
  "hdr_bytes Little_endian global_pcap_hdr =
     [0xd4, 0xc3, 0xb2, 0xa1, 2, 0, 4, 0, 0, 0, 0, 0, 0, 0, 0, 0, 0xdc, 5, 0, 0, 1, 0, 0, 0]"
  by (simp add: hdr_bytes_def enc32_def enc16_def global_pcap_hdr_def PCAP_MAGIC_def Let_def)

text \<open>
  Where the file is empty or holds a full header, and every system call completes,
  \<open>logpkt_pcap_open_fd\<close> does what its comment (lines 88-97) says: a file whose
  magic field does not match is replaced by one freshly written global header; the
  empty file receives the global header (magic 0xA1B2C3D4, version 2.4, snapshot length
  1500, link type 1); a file whose magic field matches is left as it is, whatever its
  other bytes are. In each case the offset is at the end of the file.
\<close>

lemma open_fd_full_header_foreign:
  assumes "\<forall>n. io sy n = IO_complete"
    and "sizeof_pcap_file_hdr_t \<le> length (content f)"
    and "dec32 (byte_order sy) (take 4 (content f)) \<noteq> PCAP_MAGIC"
  shows "\<exists>f'. logpkt_pcap_open_fd sy f = (Inr (), f')
          \<and> content f' = hdr_bytes (byte_order sy) global_pcap_hdr
          \<and> length (content f') = sizeof_pcap_file_hdr_t
          \<and> pos f' = sizeof_pcap_file_hdr_t"
  using open_fd_foreign[OF assms] by (auto simp: length_hdr_bytes)

lemma open_fd_full_header_foreign_example:
  "(\<forall>n. io sys_ok n = IO_complete)
   \<and> sizeof_pcap_file_hdr_t \<le> length (content (file_of ([7, 7, 7, 7] @ replicate 26 7)))
   \<and> dec32 (byte_order sys_ok) (take 4 (content (file_of ([7, 7, 7, 7] @ replicate 26 7)))) \<noteq> PCAP_MAGIC
   \<and> (\<exists>f'. logpkt_pcap_open_fd sys_ok (file_of ([7, 7, 7, 7] @ replicate 26 7)) = (Inr (), f')
          \<and> content f' = [0xd4, 0xc3, 0xb2, 0xa1, 2, 0, 4, 0, 0, 0, 0, 0, 0, 0, 0, 0,
                          0xdc, 5, 0, 0, 1, 0, 0, 0]
          \<and> pos f' = 24)"
proof -
  have h1: "\<forall>n. io sys_ok n = IO_complete" by (simp add: sys_ok_def)
  have h2: "sizeof_pcap_file_hdr_t \<le> length (content (file_of ([7, 7, 7, 7] @ replicate 26 7)))"
    by (simp add: sizeof_pcap_file_hdr_t_def file_of_def)
  have h3: "dec32 (byte_order sys_ok) (take 4 (content (file_of ([7, 7, 7, 7] @ replicate 26 7)))) \<noteq> PCAP_MAGIC"
    by (simp add: sys_ok_def file_of_def dec32_def word_rcat_def PCAP_MAGIC_def)
  from open_fd_full_header_foreign[OF h1 h2 h3] h1 h2 h3 show ?thesis
    by (auto simp: sys_ok_def hdr_bytes_little sizeof_pcap_file_hdr_t_def)
qed

lemma open_fd_empty_or_magic:
  assumes "\<forall>n. io sy n = IO_complete"
  shows "(content f = [] \<longrightarrow>
           (\<exists>f'. logpkt_pcap_open_fd sy f = (Inr (), f')
              \<and> content f' = hdr_bytes (byte_order sy)
                    \<lparr>magic_number = 0xa1b2c3d4, version_major = 2, version_minor = 4,
                     thiszone = 0, sigfigs = 0, snaplen = 1500, network = 1\<rparr>
              \<and> pos f' = sizeof_pcap_file_hdr_t \<and> pos f' = length (content f')))
       \<and> (sizeof_pcap_file_hdr_t \<le> length (content f)
            \<and> dec32 (byte_order sy) (take 4 (content f)) = PCAP_MAGIC \<longrightarrow>
           (\<exists>f'. logpkt_pcap_open_fd sy f = (Inr (), f')
              \<and> content f' = content f \<and> pos f' = length (content f')))"
proof (intro conjI impI)
  assume "content f = []"
  from open_fd_empty[OF assms this]
  show "\<exists>f'. logpkt_pcap_open_fd sy f = (Inr (), f')
              \<and> content f' = hdr_bytes (byte_order sy)
                    \<lparr>magic_number = 0xa1b2c3d4, version_major = 2, version_minor = 4,
                     thiszone = 0, sigfigs = 0, snaplen = 1500, network = 1\<rparr>
              \<and> pos f' = sizeof_pcap_file_hdr_t \<and> pos f' = length (content f')"
    by (auto simp: length_hdr_bytes global_pcap_hdr_def PCAP_MAGIC_def)
next
  assume "sizeof_pcap_file_hdr_t \<le> length (content f)
            \<and> dec32 (byte_order sy) (take 4 (content f)) = PCAP_MAGIC"
  then show "\<exists>f'. logpkt_pcap_open_fd sy f = (Inr (), f')
              \<and> content f' = content f \<and> pos f' = length (content f')"
    using open_fd_magic[OF assms, of f] by auto
qed

lemma open_fd_empty_or_magic_example:
  "(\<forall>n. io sys_ok n = IO_complete)
   \<and> content (file_of []) = []
   \<and> (\<exists>f'. logpkt_pcap_open_fd sys_ok (file_of []) = (Inr (), f')
          \<and> content f' = [0xd4, 0xc3, 0xb2, 0xa1, 2, 0, 4, 0, 0, 0, 0, 0, 0, 0, 0, 0,
                          0xdc, 5, 0, 0, 1, 0, 0, 0]
          \<and> pos f' = 24)
   \<and> sizeof_pcap_file_hdr_t \<le> length (content (file_of ([0xd4, 0xc3, 0xb2, 0xa1] @ replicate 30 7)))
   \<and> dec32 (byte_order sys_ok) (take 4 (content (file_of ([0xd4, 0xc3, 0xb2, 0xa1] @ replicate 30 7))))
        = PCAP_MAGIC
   \<and> (\<exists>f'. logpkt_pcap_open_fd sys_ok (file_of ([0xd4, 0xc3, 0xb2, 0xa1] @ replicate 30 7)) = (Inr (), f')
          \<and> content f' = [0xd4, 0xc3, 0xb2, 0xa1] @ replicate 30 7
          \<and> pos f' = 34)"
proof -
  let ?old = "file_of ([0xd4, 0xc3, 0xb2, 0xa1] @ replicate 30 7)"
  have h1: "\<forall>n. io sys_ok n = IO_complete" by (simp add: sys_ok_def)
  have h2: "content (file_of []) = []" by (simp add: file_of_def)
  have h3: "sizeof_pcap_file_hdr_t \<le> length (content ?old)"
    by (simp add: sizeof_pcap_file_hdr_t_def file_of_def)
  have h4: "dec32 (byte_order sys_ok) (take 4 (content ?old)) = PCAP_MAGIC"
    by (simp add: sys_ok_def file_of_def dec32_def word_rcat_def PCAP_MAGIC_def)
  have a: "\<exists>f'. logpkt_pcap_open_fd sys_ok (file_of []) = (Inr (), f')
          \<and> content f' = [0xd4, 0xc3, 0xb2, 0xa1, 2, 0, 4, 0, 0, 0, 0, 0, 0, 0, 0, 0,
                          0xdc, 5, 0, 0, 1, 0, 0, 0]
          \<and> pos f' = 24"
    using open_fd_empty_or_magic[OF h1, of "file_of []"] h2
    by (auto simp: sys_ok_def hdr_bytes_little[unfolded global_pcap_hdr_def PCAP_MAGIC_def]
        sizeof_pcap_file_hdr_t_def)
  have b: "\<exists>f'. logpkt_pcap_open_fd sys_ok ?old = (Inr (), f')
          \<and> content f' = [0xd4, 0xc3, 0xb2, 0xa1] @ replicate 30 7 \<and> pos f' = 34"
    using open_fd_empty_or_magic[OF h1, of ?old] h3 h4
    by (auto simp: file_of_def)
  from h1 h2 h3 h4 a b show ?thesis by blast
qed

text \<open>
  C5. The claim is what the comment of \<open>logpkt_pcap_open_fd\<close> says (a file
  without PCAP magic bytes is truncated and a new header written), and the code does
  not do it for a non-empty file shorter than the header: with every system call
  completing, \<open>read\<close> returns the length of the file, which is not the size of
  the header, and the function returns -1 at lines 112-114, leaving the file as it was
  and the offset at its end.
\<close>

theorem open_fd_short_file_rejected:
  assumes "\<forall>n. io sy n = IO_complete"
    and "0 < length (content f)"
    and "length (content f) < sizeof_pcap_file_hdr_t"
  shows "logpkt_pcap_open_fd sy f
           = (Inl (Short_read (length (content f))),
              f\<lparr>pos := length (content f), n_io := n_io f + 3\<rparr>)"
proof -
  have "content f \<noteq> []" using assms(2) by auto
  with assms show ?thesis
    by (simp add: logpkt_pcap_open_fd_def lseek_end_def lseek_set_def sys_read_def tick_def
        sizeof_pcap_file_hdr_t_def Let_def)
qed

text \<open>
  C5, witness: a file of one byte that is not the magic, no system call failing. The
  claim asks for success and a file holding the global header; the code returns -1
  and the file still holds the one byte.
\<close>

theorem open_fd_short_file_rejected_witness:
  "(\<forall>n. io sys_ok n = IO_complete)
   \<and> 0 < length (content (file_of [0x00]))
   \<and> length (content (file_of [0x00])) < sizeof_pcap_file_hdr_t
   \<and> dec32 (byte_order sys_ok) (take 4 (content (file_of [0x00]))) \<noteq> PCAP_MAGIC
   \<and> logpkt_pcap_open_fd sys_ok (file_of [0x00])
       = (Inl (Short_read 1), \<lparr>content = [0x00], pos = 1, n_io = 3\<rparr>)"
proof -
  have h1: "\<forall>n. io sys_ok n = IO_complete" by (simp add: sys_ok_def)
  have h2: "0 < length (content (file_of [0x00]))" by (simp add: file_of_def)
  have h3: "length (content (file_of [0x00])) < sizeof_pcap_file_hdr_t"
    by (simp add: file_of_def sizeof_pcap_file_hdr_t_def)
  have h4: "dec32 (byte_order sys_ok) (take 4 (content (file_of [0x00]))) \<noteq> PCAP_MAGIC"
    by (simp add: sys_ok_def file_of_def dec32_def word_rcat_def PCAP_MAGIC_def)
  have "logpkt_pcap_open_fd sys_ok (file_of [0x00])
       = (Inl (Short_read 1), \<lparr>content = [0x00], pos = 1, n_io = 3\<rparr>)"
    using open_fd_short_file_rejected[OF h1 h2 h3] by (simp add: file_of_def)
  with h1 h2 h3 h4 show ?thesis by blast
qed

text \<open>
  C6. The claim is what the comment of \<open>logpkt_pcap_open_fd\<close> says (on a file with
  PCAP magic bytes the offset is moved to the end and 0 returned), and the code does
  not do it for a file of 4 to 23 bytes that starts with the magic. Two such files,
  no system call failing when they are opened: the four bytes of the magic, and the
  ten bytes that the function itself leaves behind when the write of the header on an
  empty file is cut short. In both cases \<open>read\<close> returns a short count and the
  function returns -1 at lines 112-114 instead of seeking to the end. It is the defect
  of C5.
\<close>

theorem open_fd_short_magic_rejected:
  "dec32 Little_endian (take 4 [0xd4, 0xc3, 0xb2, 0xa1]) = PCAP_MAGIC
   \<and> logpkt_pcap_open_fd sys_ok (file_of [0xd4, 0xc3, 0xb2, 0xa1])
     = (Inl (Short_read 4), \<lparr>content = [0xd4, 0xc3, 0xb2, 0xa1], pos = 4, n_io = 3\<rparr>)
   \<and> logpkt_pcap_open_fd (sys_short_write 10) (file_of [])
     = (Inl (Short_write 10),
        \<lparr>content = [0xd4, 0xc3, 0xb2, 0xa1, 2, 0, 4, 0, 0, 0], pos = 10, n_io = 2\<rparr>)
   \<and> logpkt_pcap_open_fd sys_ok (file_of [0xd4, 0xc3, 0xb2, 0xa1, 2, 0, 4, 0, 0, 0])
     = (Inl (Short_read 10),
        \<lparr>content = [0xd4, 0xc3, 0xb2, 0xa1, 2, 0, 4, 0, 0, 0], pos = 10, n_io = 3\<rparr>)"
  by (simp add: logpkt_pcap_open_fd_def logpkt_write_global_pcap_hdr_def lseek_end_def
      lseek_set_def sys_read_def sys_write_def put_bytes_def tick_def sys_ok_def
      sys_short_write_def file_of_def sizeof_pcap_file_hdr_t_def Let_def dec32_def
      word_rcat_def PCAP_MAGIC_def hdr_bytes_little)

section \<open>Properties of the address conversion\<close>

lemma str2ip46addr_inet:
  "logpkt_str2ip46addr ae addr AF_INET (ip4, ip6) =
     (if inet_addr ae addr = 0 then Inl Ip4_conversion_failed else Inr (), (inet_addr ae addr, ip6))"
  by (simp add: logpkt_str2ip46addr_def Let_def)

text \<open>
  C4. The claim does not hold of the code: for two addresses of the IPv4 family,
  \<open>logpkt_set_packet_fields\<close> fails with the conversion error exactly when
  \<open>inet_addr\<close> returns zero for one of them, and succeeds, storing what
  \<open>inet_addr\<close> returned, otherwise. \<open>inet_addr\<close> returns zero for the
  well-formed text \<open>0.0.0.0\<close> and \<open>INADDR_NONE\<close> for a text that does not
  parse, so the first is rejected and the second is accepted as 255.255.255.255.
\<close>

theorem set_packet_fields_ipv4_zero_check:
  assumes "sys_get_af ae src_addr = AF_INET" and "sys_get_af ae dst_addr = AF_INET"
  shows "(fst (logpkt_set_packet_fields ae ctx src_addr sp dst_addr dp) = Inl Ip4_conversion_failed)
           = (inet_addr ae src_addr = 0 \<or> inet_addr ae dst_addr = 0)
       \<and> (fst (logpkt_set_packet_fields ae ctx src_addr sp dst_addr dp) = Inr ())
           = (inet_addr ae src_addr \<noteq> 0 \<and> inet_addr ae dst_addr \<noteq> 0)
       \<and> (inet_addr ae src_addr \<noteq> 0 \<and> inet_addr ae dst_addr \<noteq> 0 \<longrightarrow>
            src_ip (snd (logpkt_set_packet_fields ae ctx src_addr sp dst_addr dp)) = inet_addr ae src_addr
          \<and> dst_ip (snd (logpkt_set_packet_fields ae ctx src_addr sp dst_addr dp)) = inet_addr ae dst_addr)"
  using assms
  by (simp add: logpkt_set_packet_fields_def str2ip46addr_inet Let_def)

text \<open>
  C4, witness: \<open>0.0.0.0\<close> as source address is rejected; a text for which
  \<open>inet_addr\<close> returns \<open>INADDR_NONE\<close> is accepted.
\<close>

theorem set_packet_fields_ipv4_zero_check_witness:
  "sys_get_af addr_env_example ''0.0.0.0'' = AF_INET
   \<and> sys_get_af addr_env_example ''10.0.0.1'' = AF_INET
   \<and> sys_get_af addr_env_example ''not-an-address'' = AF_INET
   \<and> fst (logpkt_set_packet_fields addr_env_example ctx_A ''0.0.0.0'' ''40000'' ''10.0.0.1'' ''443'')
       = Inl Ip4_conversion_failed
   \<and> fst (logpkt_set_packet_fields addr_env_example ctx_A ''not-an-address'' ''40000'' ''10.0.0.1'' ''443'')
       = Inr ()
   \<and> src_ip (snd (logpkt_set_packet_fields addr_env_example ctx_A ''not-an-address'' ''40000''
                    ''10.0.0.1'' ''443'')) = INADDR_NONE"
proof -
  have h1: "sys_get_af addr_env_example ''0.0.0.0'' = AF_INET"
    and h2: "sys_get_af addr_env_example ''10.0.0.1'' = AF_INET"
    and h3: "sys_get_af addr_env_example ''not-an-address'' = AF_INET"
    by (simp_all add: addr_env_example_def)
  have z: "inet_addr addr_env_example ''0.0.0.0'' = 0"
    and a: "inet_addr addr_env_example ''10.0.0.1'' \<noteq> 0"
    and n: "inet_addr addr_env_example ''not-an-address'' = INADDR_NONE"
    by (simp_all add: addr_env_example_def INADDR_NONE_def)
  have nz: "INADDR_NONE \<noteq> 0" by (simp add: INADDR_NONE_def)
  from set_packet_fields_ipv4_zero_check[OF h1 h2, of ctx_A "''40000''" "''443''"] z
  have r1: "fst (logpkt_set_packet_fields addr_env_example ctx_A ''0.0.0.0'' ''40000'' ''10.0.0.1'' ''443'')
       = Inl Ip4_conversion_failed" by simp
  from set_packet_fields_ipv4_zero_check[OF h3 h2, of ctx_A "''40000''" "''443''"] a n nz
  have r2: "fst (logpkt_set_packet_fields addr_env_example ctx_A ''not-an-address'' ''40000'' ''10.0.0.1'' ''443'')
       = Inr ()"
    and r3: "src_ip (snd (logpkt_set_packet_fields addr_env_example ctx_A ''not-an-address'' ''40000''
                    ''10.0.0.1'' ''443'')) = INADDR_NONE"
    by simp_all
  from h1 h2 h3 r1 r2 r3 show ?thesis by blast
qed

section \<open>Properties of the address lookup\<close>

lemmas header_defs =
  ar_op_def ar_pro_def ar_hrd_def ar_hln_def ar_pln_def arp_spa_def arp_sha_def
  eth_shost_def ntohs_at_def bytes_at_def LIBNET_ETH_H_def LIBNET_ARP_H_def ETHER_ADDR_LEN_def
  ARPOP_REPLY_def ETHERTYPE_IP_def ARPHRD_ETHER_def

lemmas field_defs =
  field_def field16_def field8_def ether_source_def arp_hardware_type_def
  arp_protocol_type_def arp_operation_def arp_sender_hw_def arp_sender_ip_def





lemmas frame_defs =
  arp_reply_def reply_x_def reply_y_def reply_other_def reply_hln4_def reply_pln2_def
  mac_local_def mac_x_def mac_y_def word_rcat_def

lemma reply_hln4_facts:
  "callback_accepts [10, 0, 0, 2] reply_hln4"
  "\<not> passes_filters [10, 0, 0, 2] reply_hln4"
  "arp_sender_hw reply_hln4 = Some [0x02, 0, 0, 0]"
  "ether_source reply_hln4 = Some [0x02, 0, 0, 0, 10, 0]"
  "arp_sender_ip reply_hln4 = Some [10, 0, 0, 2]"
  "ar_hln reply_hln4 = 4" "length reply_hln4 = 42"
  by (simp_all add: callback_accepts_def passes_filters_def field_defs header_defs frame_defs)




lemma reply_other_facts:
  "\<not> callback_accepts [10, 0, 0, 2] reply_other" "\<not> passes_filters [10, 0, 0, 2] reply_other"
  by (simp_all add: callback_accepts_def passes_filters_def field_defs header_defs frame_defs)

lemma recv_arp_reply_accepts:
  "logpkt_recv_arp_reply ctx p =
     (if callback_accepts (ip ctx) p then ctx\<lparr>ether := arp_sha p, result := 0\<rparr> else ctx)"
  by (auto simp: logpkt_recv_arp_reply_def callback_accepts_def)

lemma foldl_recv_arp_reply:
  "foldl logpkt_recv_arp_reply ctx fs =
     (if filter (callback_accepts (ip ctx)) fs = [] then ctx
      else ctx\<lparr>ether := arp_sha (last (filter (callback_accepts (ip ctx)) fs)), result := 0\<rparr>)"
proof (induction fs rule: rev_induct)
  case Nil
  then show ?case by simp
next
  case (snoc p fs)
  then show ?case by (simp add: recv_arp_reply_accepts)
qed

lemma foldl_recv_ip [simp]: "ip (foldl logpkt_recv_arp_reply ctx fs) = ip ctx"
  by (simp add: foldl_recv_arp_reply)


lemma arp_loop_attempts_le:
  assumes "arp_loop le count ctx t = (ctx', t')" and "0 < count"
  shows "attempts t < attempts t' \<and> attempts t' \<le> attempts t + nat count"
  using assms
proof (induction le count ctx t arbitrary: ctx' t' rule: arp_loop.induct)
  case (1 le count ctx t)
  let ?t1 = "t\<lparr>attempts := Suc (attempts t)\<rparr>"
  let ?t2 = "?t1\<lparr>requests := Suc (requests ?t1)\<rparr>"
  let ?t3 = "?t2\<lparr>windows := Suc (windows ?t2)\<rparr>"
  let ?t4 = "?t3\<lparr>sleeps := Suc (sleeps ?t3)\<rparr>"
  obtain frames ok where d: "pcap_dispatch le (windows ?t2) = (frames, ok)"
    by (cases "pcap_dispatch le (windows ?t2)") auto
  let ?ctx = "foldl logpkt_recv_arp_reply ctx (take 1000 frames)"
  show ?case
  proof (cases "arp_write_ok le (attempts t) \<and> ok \<and> result ?ctx = - 1 \<and> count - 1 > 0")
    case True
    then have rec: "arp_loop le (count - 1) ?ctx ?t4 = (ctx', t')"
      using "1.prems"(1) d by (subst (asm) arp_loop.simps) (simp add: Let_def)
    from True have c: "0 < count - 1" by simp
    have "attempts ?t4 < attempts t' \<and> attempts t' \<le> attempts ?t4 + nat (count - 1)"
      using "1.IH"[OF refl _ refl d[symmetric] refl refl _ refl _ rec c] True by simp
    then show ?thesis using c by auto
  next
    case False
    then have "attempts t' = Suc (attempts t)"
      using "1.prems"(1) d
      by (subst (asm) arp_loop.simps) (auto simp: Let_def split: if_splits)
    then show ?thesis using "1.prems"(2) by auto
  qed
qed

lemma arp_loop_no_match:
  assumes "\<forall>n. attempts t \<le> n \<and> n < attempts t + nat count \<longrightarrow> arp_write_ok le n"
    and "\<forall>n. windows t \<le> n \<and> n < windows t + nat count \<longrightarrow>
           snd (pcap_dispatch le n) \<and> window le (ip ctx) n = []"
    and "result ctx = - 1" and "0 < count"
  shows "arp_loop le count ctx t =
           (ctx, \<lparr>attempts = attempts t + nat count, requests = requests t + nat count,
                  windows = windows t + nat count, sleeps = sleeps t + nat count\<rparr>)"
  using assms
proof (induction le count ctx t rule: arp_loop.induct)
  case (1 le count ctx t)
  let ?t1 = "t\<lparr>attempts := Suc (attempts t)\<rparr>"
  let ?t2 = "?t1\<lparr>requests := Suc (requests ?t1)\<rparr>"
  let ?t3 = "?t2\<lparr>windows := Suc (windows ?t2)\<rparr>"
  let ?t4 = "?t3\<lparr>sleeps := Suc (sleeps ?t3)\<rparr>"
  obtain frames ok where d: "pcap_dispatch le (windows ?t2) = (frames, ok)"
    by (cases "pcap_dispatch le (windows ?t2)") auto
  have pos: "0 < nat count" using "1.prems"(4) by simp
  have wr: "arp_write_ok le (attempts t)" using "1.prems"(1) pos by simp
  have "snd (pcap_dispatch le (windows t)) \<and> window le (ip ctx) (windows t) = []"
    using "1.prems"(2) pos by simp
  then have ok: "ok" and "filter (callback_accepts (ip ctx)) (take 1000 frames) = []"
    using d by (simp_all add: window_def)
  then have same: "foldl logpkt_recv_arp_reply ctx (take 1000 frames) = ctx"
    by (simp add: foldl_recv_arp_reply)
  show ?case
  proof (cases "count - 1 > 0")
    case True
    have n: "Suc (nat (count - 1)) = nat count" using True by simp
    have p1: "\<forall>n. attempts ?t4 \<le> n \<and> n < attempts ?t4 + nat (count - 1) \<longrightarrow> arp_write_ok le n"
      using "1.prems"(1) n by simp
    have p2: "\<forall>n. windows ?t4 \<le> n \<and> n < windows ?t4 + nat (count - 1) \<longrightarrow>
           snd (pcap_dispatch le n) \<and> window le (ip ctx) n = []"
      using "1.prems"(2) n by simp
    have ih: "arp_loop le (count - 1) ctx ?t4 =
           (ctx, \<lparr>attempts = attempts ?t4 + nat (count - 1), requests = requests ?t4 + nat (count - 1),
                  windows = windows ?t4 + nat (count - 1), sleeps = sleeps ?t4 + nat (count - 1)\<rparr>)"
      using "1.IH"[OF refl wr refl d[symmetric] refl refl _ refl] True ok same p1 p2 "1.prems"(3)
      by simp
    show ?thesis
      using wr d ok same True "1.prems"(3) ih n
      by (subst arp_loop.simps) (simp add: Let_def)
  next
    case False
    then have "nat count = 1" using "1.prems"(4) by simp
    then show ?thesis
      using wr d ok same False "1.prems"(3)
      by (subst arp_loop.simps) (simp add: Let_def)
  qed
qed

lemma arp_loop_break:
  assumes "\<forall>n. attempts t \<le> n \<and> n < attempts t + j \<longrightarrow> arp_write_ok le n"
    and "\<forall>n. windows t \<le> n \<and> n < windows t + j \<longrightarrow>
           snd (pcap_dispatch le n) \<and> window le (ip ctx) n = []"
    and "result ctx = - 1" and "int j < count"
    and "\<not> arp_write_ok le (attempts t + j)
         \<or> \<not> snd (pcap_dispatch le (windows t + j)) \<and> window le (ip ctx) (windows t + j) = []"
  shows "arp_loop le count ctx t =
           (ctx, if arp_write_ok le (attempts t + j)
                 then \<lparr>attempts = attempts t + j + 1, requests = requests t + j + 1,
                       windows = windows t + j + 1, sleeps = sleeps t + j\<rparr>
                 else \<lparr>attempts = attempts t + j + 1, requests = requests t + j,
                       windows = windows t + j, sleeps = sleeps t + j\<rparr>)"
  using assms
proof (induction j arbitrary: count t)
  case 0
  show ?case
  proof (cases "arp_write_ok le (attempts t)")
    case False
    then show ?thesis by (subst arp_loop.simps) (simp add: Let_def)
  next
    case True
    then have d: "\<not> snd (pcap_dispatch le (windows t))" "window le (ip ctx) (windows t) = []"
      using "0.prems"(5) by simp_all
    obtain frames ok where f: "pcap_dispatch le (windows t) = (frames, ok)"
      by (cases "pcap_dispatch le (windows t)") auto
    with d have "\<not> ok" "filter (callback_accepts (ip ctx)) (take 1000 frames) = []"
      by (simp_all add: window_def)
    then have "foldl logpkt_recv_arp_reply ctx (take 1000 frames) = ctx" "\<not> ok"
      by (simp_all add: foldl_recv_arp_reply)
    then show ?thesis using True f by (subst arp_loop.simps) (simp add: Let_def)
  qed
next
  case (Suc j)
  let ?t4 = "t\<lparr>attempts := Suc (attempts t), requests := Suc (requests t),
               windows := Suc (windows t), sleeps := Suc (sleeps t)\<rparr>"
  have wr: "arp_write_ok le (attempts t)" using Suc.prems(1) by simp
  have "snd (pcap_dispatch le (windows t)) \<and> window le (ip ctx) (windows t) = []"
    using Suc.prems(2) by simp
  moreover obtain frames ok where f: "pcap_dispatch le (windows t) = (frames, ok)"
    by (cases "pcap_dispatch le (windows t)") auto
  ultimately have ok: "ok" and "filter (callback_accepts (ip ctx)) (take 1000 frames) = []"
    by (simp_all add: window_def)
  then have same: "foldl logpkt_recv_arp_reply ctx (take 1000 frames) = ctx"
    by (simp add: foldl_recv_arp_reply)
  have c: "0 < count - 1" "int j < count - 1" using Suc.prems(4) by simp_all
  have step: "arp_loop le count ctx t = arp_loop le (count - 1) ctx ?t4"
    using wr f ok same c Suc.prems(3) by (subst arp_loop.simps) (simp add: Let_def)
  have p1: "\<forall>n. attempts ?t4 \<le> n \<and> n < attempts ?t4 + j \<longrightarrow> arp_write_ok le n"
    using Suc.prems(1) by simp
  have p2: "\<forall>n. windows ?t4 \<le> n \<and> n < windows ?t4 + j \<longrightarrow>
           snd (pcap_dispatch le n) \<and> window le (ip ctx) n = []"
    using Suc.prems(2) by simp
  have p5: "\<not> arp_write_ok le (attempts ?t4 + j)
         \<or> \<not> snd (pcap_dispatch le (windows ?t4 + j)) \<and> window le (ip ctx) (windows ?t4 + j) = []"
    using Suc.prems(5) by simp
  show ?case
    unfolding step using Suc.IH[OF p1 p2 Suc.prems(3) c(2) p5] by simp
qed


lemma setup_ok_lookup:
  assumes "setup_ok le ip_s if_s"
  shows "\<exists>hw. libnet_get_hwaddr le = Some hw \<and>
     logpkt_ether_lookup le junk je sb db ip_s if_s =
       (case arp_loop le 50 \<lparr>ip = libnet_name2addr4 le ip_s, result = - 1, ether = je\<rparr> trace0 of
          (ctx, t) \<Rightarrow>
            \<lparr>returned = result ctx, src_ether_out = take ETHER_ADDR_LEN hw,
             dst_ether_out = (if result ctx = 0 then take ETHER_ADDR_LEN (ether ctx) else db),
             setup_error = None, trace = t\<rparr>)"
  using assms by (auto simp: setup_ok_def logpkt_ether_lookup_def Let_def)


lemma lookup_setup_failed:
  "\<not> setup_ok le ip_s if_s \<Longrightarrow> trace (logpkt_ether_lookup le junk je sb db ip_s if_s) = trace0"
  by (auto simp: setup_ok_def logpkt_ether_lookup_def Let_def split: option.splits prod.splits)

lemma example_setup_ok: "setup_ok (lookup_env_example wr disp) ip_s if_s"
  by (simp add: setup_ok_def lookup_env_example_def)

lemma example_env_simps:
  "libnet_name2addr4 (lookup_env_example wr disp) s = [10, 0, 0, 2]"
  "arp_write_ok (lookup_env_example wr disp) = wr"
  "pcap_dispatch (lookup_env_example wr disp) = disp"
  by (simp_all add: lookup_env_example_def)

lemma window_reply_other:
  "fst (pcap_dispatch le n) = [reply_other] \<Longrightarrow> window le [10, 0, 0, 2] n = []"
  using reply_other_facts(1) by (simp add: window_def)

text \<open>
  C7. As stated the claim fails: the loop is left at the first \<open>libnet_write\<close> or
  \<open>pcap_dispatch\<close> that fails, and it is left with success as soon as the callback
  accepts a frame, which it also does for some frames that do not pass the five filters
  (see the counterexample below). Amended: \<open>logpkt_ether_lookup\<close> always
  terminates after at most 50 attempts. In every run in which the set-up succeeds and
  the callback accepts no observed frame: when every \<open>libnet_write\<close> and
  \<open>pcap_dispatch\<close> succeeds, the loop makes exactly 50 attempts, each sending one
  request, observing one window and sleeping once, and the function returns -1; when
  the attempt of index \<open>k < 50\<close> is the first at which \<open>libnet_write\<close> or
  \<open>pcap_dispatch\<close> fails, the loop ends at that attempt, after \<open>k + 1\<close>
  attempts (without the request when \<open>libnet_write\<close> failed, without the sleep in
  both cases), and the function returns -1. The destination buffer is left as it was.
\<close>

theorem ether_lookup_attempts:
  "attempts (trace (logpkt_ether_lookup le junk je sb db ip_s if_s)) \<le> 50
   \<and> (setup_ok le ip_s if_s
        \<and> (\<forall>n<50. arp_write_ok le n \<and> snd (pcap_dispatch le n)
                     \<and> window le (libnet_name2addr4 le ip_s) n = []) \<longrightarrow>
      trace (logpkt_ether_lookup le junk je sb db ip_s if_s)
          = \<lparr>attempts = 50, requests = 50, windows = 50, sleeps = 50\<rparr>
      \<and> returned (logpkt_ether_lookup le junk je sb db ip_s if_s) = - 1
      \<and> dst_ether_out (logpkt_ether_lookup le junk je sb db ip_s if_s) = db)
   \<and> (setup_ok le ip_s if_s \<and> k < 50
        \<and> (\<forall>n<k. arp_write_ok le n \<and> snd (pcap_dispatch le n)
                    \<and> window le (libnet_name2addr4 le ip_s) n = [])
        \<and> (\<not> arp_write_ok le k
             \<or> \<not> snd (pcap_dispatch le k) \<and> window le (libnet_name2addr4 le ip_s) k = [])
        \<longrightarrow>
      trace (logpkt_ether_lookup le junk je sb db ip_s if_s)
          = (if arp_write_ok le k
             then \<lparr>attempts = k + 1, requests = k + 1, windows = k + 1, sleeps = k\<rparr>
             else \<lparr>attempts = k + 1, requests = k, windows = k, sleeps = k\<rparr>)
      \<and> returned (logpkt_ether_lookup le junk je sb db ip_s if_s) = - 1
      \<and> dst_ether_out (logpkt_ether_lookup le junk je sb db ip_s if_s) = db)"
proof -
  let ?out = "logpkt_ether_lookup le junk je sb db ip_s if_s"
  let ?c0 = "\<lparr>ip = libnet_name2addr4 le ip_s, result = - 1, ether = je\<rparr>"
  have bound: "attempts (trace ?out) \<le> 50"
  proof (cases "setup_ok le ip_s if_s")
    case True
    obtain ctx t where l: "arp_loop le 50 ?c0 trace0 = (ctx, t)"
      by (cases "arp_loop le 50 ?c0 trace0") auto
    from arp_loop_attempts_le[OF l] have "attempts t \<le> 50" by (simp add: trace0_def)
    then show ?thesis using setup_ok_lookup[OF True, of junk je sb db] l by auto
  next
    case False
    then show ?thesis by (simp add: lookup_setup_failed trace0_def)
  qed
  have exact: "trace ?out = \<lparr>attempts = 50, requests = 50, windows = 50, sleeps = 50\<rparr>
      \<and> returned ?out = - 1 \<and> dst_ether_out ?out = db"
    if h: "setup_ok le ip_s if_s
        \<and> (\<forall>n<50. arp_write_ok le n \<and> snd (pcap_dispatch le n)
                     \<and> window le (libnet_name2addr4 le ip_s) n = [])"
  proof -
    have l: "arp_loop le 50 ?c0 trace0 =
        (?c0, \<lparr>attempts = 50, requests = 50, windows = 50, sleeps = 50\<rparr>)"
      using arp_loop_no_match[of trace0 50 le ?c0] h by (simp add: trace0_def)
    from h have s: "setup_ok le ip_s if_s" by simp
    show ?thesis using setup_ok_lookup[OF s, of junk je sb db] l by auto
  qed
  have broken: "trace ?out
          = (if arp_write_ok le k
             then \<lparr>attempts = k + 1, requests = k + 1, windows = k + 1, sleeps = k\<rparr>
             else \<lparr>attempts = k + 1, requests = k, windows = k, sleeps = k\<rparr>)
      \<and> returned ?out = - 1 \<and> dst_ether_out ?out = db"
    if h: "setup_ok le ip_s if_s \<and> k < 50
        \<and> (\<forall>n<k. arp_write_ok le n \<and> snd (pcap_dispatch le n)
                    \<and> window le (libnet_name2addr4 le ip_s) n = [])
        \<and> (\<not> arp_write_ok le k
             \<or> \<not> snd (pcap_dispatch le k) \<and> window le (libnet_name2addr4 le ip_s) k = [])"
  proof -
    have l: "arp_loop le 50 ?c0 trace0 =
        (?c0, if arp_write_ok le k
             then \<lparr>attempts = k + 1, requests = k + 1, windows = k + 1, sleeps = k\<rparr>
             else \<lparr>attempts = k + 1, requests = k, windows = k, sleeps = k\<rparr>)"
      using arp_loop_break[of trace0 k le ?c0 50] h by (simp add: trace0_def)
    from h have s: "setup_ok le ip_s if_s" by simp
    show ?thesis using setup_ok_lookup[OF s, of junk je sb db] l by auto
  qed
  from bound exact broken show ?thesis by blast
qed

text \<open>
  C7, witness: every window holds a reply for another address, and every call
  succeeds; the same with \<open>libnet_write\<close> failing at the attempt of index 3; the
  same with \<open>pcap_dispatch\<close> failing at the attempt of index 2.
\<close>

theorem ether_lookup_attempts_witness:
  "setup_ok lookup_env_unanswered ''10.0.0.2'' ''eth0''
   \<and> (\<forall>n. arp_write_ok lookup_env_unanswered n \<and> snd (pcap_dispatch lookup_env_unanswered n)
         \<and> window lookup_env_unanswered (libnet_name2addr4 lookup_env_unanswered ''10.0.0.2'') n = [])
   \<and> trace (logpkt_ether_lookup lookup_env_unanswered 0 [] [] [] ''10.0.0.2'' ''eth0'')
        = \<lparr>attempts = 50, requests = 50, windows = 50, sleeps = 50\<rparr>
   \<and> returned (logpkt_ether_lookup lookup_env_unanswered 0 [] [] [] ''10.0.0.2'' ''eth0'') = - 1
   \<and> setup_ok (lookup_env_tx_fails_at 3) ''10.0.0.2'' ''eth0''
   \<and> (\<forall>n. arp_write_ok (lookup_env_tx_fails_at 3) n = (n \<noteq> 3))
   \<and> (\<forall>n. snd (pcap_dispatch (lookup_env_tx_fails_at 3) n)
         \<and> window (lookup_env_tx_fails_at 3)
              (libnet_name2addr4 (lookup_env_tx_fails_at 3) ''10.0.0.2'') n = [])
   \<and> trace (logpkt_ether_lookup (lookup_env_tx_fails_at 3) 0 [] [] [] ''10.0.0.2'' ''eth0'')
        = \<lparr>attempts = 4, requests = 3, windows = 3, sleeps = 3\<rparr>
   \<and> returned (logpkt_ether_lookup (lookup_env_tx_fails_at 3) 0 [] [] [] ''10.0.0.2'' ''eth0'') = - 1
   \<and> setup_ok (lookup_env_dispatch_fails_at 2) ''10.0.0.2'' ''eth0''
   \<and> (\<forall>n. arp_write_ok (lookup_env_dispatch_fails_at 2) n)
   \<and> (\<forall>n. snd (pcap_dispatch (lookup_env_dispatch_fails_at 2) n) = (n \<noteq> 2))
   \<and> (\<forall>n. window (lookup_env_dispatch_fails_at 2)
              (libnet_name2addr4 (lookup_env_dispatch_fails_at 2) ''10.0.0.2'') n = [])
   \<and> trace (logpkt_ether_lookup (lookup_env_dispatch_fails_at 2) 0 [] [] [] ''10.0.0.2'' ''eth0'')
        = \<lparr>attempts = 3, requests = 3, windows = 3, sleeps = 2\<rparr>
   \<and> returned (logpkt_ether_lookup (lookup_env_dispatch_fails_at 2) 0 [] [] [] ''10.0.0.2'' ''eth0'') = - 1"
proof -
  let ?u = lookup_env_unanswered
  let ?t = "lookup_env_tx_fails_at 3"
  let ?d = "lookup_env_dispatch_fails_at 2"
  have u1: "setup_ok ?u ''10.0.0.2'' ''eth0''"
    unfolding lookup_env_unanswered_def by (rule example_setup_ok)
  have u2: "\<forall>n. arp_write_ok ?u n \<and> snd (pcap_dispatch ?u n)
         \<and> window ?u (libnet_name2addr4 ?u ''10.0.0.2'') n = []"
    by (simp add: lookup_env_unanswered_def example_env_simps window_reply_other)
  have t1: "setup_ok ?t ''10.0.0.2'' ''eth0''"
    unfolding lookup_env_tx_fails_at_def by (rule example_setup_ok)
  have t2: "\<forall>n. arp_write_ok ?t n = (n \<noteq> 3)"
    by (simp add: lookup_env_tx_fails_at_def example_env_simps)
  have t3: "\<forall>n. snd (pcap_dispatch ?t n) \<and> window ?t (libnet_name2addr4 ?t ''10.0.0.2'') n = []"
    by (simp add: lookup_env_tx_fails_at_def example_env_simps window_reply_other)
  have d1: "setup_ok ?d ''10.0.0.2'' ''eth0''"
    unfolding lookup_env_dispatch_fails_at_def by (rule example_setup_ok)
  have d2: "\<forall>n. arp_write_ok ?d n"
    by (simp add: lookup_env_dispatch_fails_at_def example_env_simps)
  have d3: "\<forall>n. snd (pcap_dispatch ?d n) = (n \<noteq> 2)"
    by (simp add: lookup_env_dispatch_fails_at_def example_env_simps)
  have d4: "\<forall>n. window ?d (libnet_name2addr4 ?d ''10.0.0.2'') n = []"
    by (simp add: lookup_env_dispatch_fails_at_def example_env_simps window_reply_other)
  have ur: "trace (logpkt_ether_lookup ?u 0 [] [] [] ''10.0.0.2'' ''eth0'')
        = \<lparr>attempts = 50, requests = 50, windows = 50, sleeps = 50\<rparr>
     \<and> returned (logpkt_ether_lookup ?u 0 [] [] [] ''10.0.0.2'' ''eth0'') = - 1"
    using ether_lookup_attempts[of ?u 0 "[]" "[]" "[]" "''10.0.0.2''" "''eth0''" 0] u1 u2
    by blast
  have tr: "trace (logpkt_ether_lookup ?t 0 [] [] [] ''10.0.0.2'' ''eth0'')
        = \<lparr>attempts = 4, requests = 3, windows = 3, sleeps = 3\<rparr>
     \<and> returned (logpkt_ether_lookup ?t 0 [] [] [] ''10.0.0.2'' ''eth0'') = - 1"
    using ether_lookup_attempts[of ?t 0 "[]" "[]" "[]" "''10.0.0.2''" "''eth0''" 3] t1 t2 t3
    by simp
  have dr: "trace (logpkt_ether_lookup ?d 0 [] [] [] ''10.0.0.2'' ''eth0'')
        = \<lparr>attempts = 3, requests = 3, windows = 3, sleeps = 2\<rparr>
     \<and> returned (logpkt_ether_lookup ?d 0 [] [] [] ''10.0.0.2'' ''eth0'') = - 1"
    using ether_lookup_attempts[of ?d 0 "[]" "[]" "[]" "''10.0.0.2''" "''eth0''" 2] d1 d2 d3 d4
    by simp
  from u1 u2 ur t1 t2 t3 tr d1 d2 d3 d4 dr show ?thesis by blast
qed

text \<open>
  C7, counterexample: the set-up succeeds and no observed frame passes the five
  filters, yet the loop makes one attempt, not 50: in the first run the first
  \<open>libnet_write\<close> fails; in the second every call succeeds and the first window holds
  the frame with hardware addresses of 4 bytes, which the callback accepts, so that
  the function returns 0.
\<close>

theorem ether_lookup_early_exit_counterexample:
  "setup_error (logpkt_ether_lookup lookup_env_tx_fails 0 [] [] [] ''10.0.0.2'' ''eth0'') = None
   \<and> attempts (trace (logpkt_ether_lookup lookup_env_tx_fails 0 [] [] [] ''10.0.0.2'' ''eth0'')) = 1
   \<and> requests (trace (logpkt_ether_lookup lookup_env_tx_fails 0 [] [] [] ''10.0.0.2'' ''eth0'')) = 0
   \<and> returned (logpkt_ether_lookup lookup_env_tx_fails 0 [] [] [] ''10.0.0.2'' ''eth0'') = - 1
   \<and> fst (pcap_dispatch lookup_env_hln4_reply 0) = [reply_hln4]
   \<and> \<not> passes_filters [10, 0, 0, 2] reply_hln4
   \<and> setup_error (logpkt_ether_lookup lookup_env_hln4_reply 0 [] [] [] ''10.0.0.2'' ''eth0'') = None
   \<and> attempts (trace (logpkt_ether_lookup lookup_env_hln4_reply 0 [] [] [] ''10.0.0.2'' ''eth0'')) = 1
   \<and> returned (logpkt_ether_lookup lookup_env_hln4_reply 0 [] [] [] ''10.0.0.2'' ''eth0'') = 0"
proof -
  have a: "setup_error (logpkt_ether_lookup lookup_env_tx_fails 0 [] [] [] ''10.0.0.2'' ''eth0'') = None
   \<and> attempts (trace (logpkt_ether_lookup lookup_env_tx_fails 0 [] [] [] ''10.0.0.2'' ''eth0'')) = 1
   \<and> requests (trace (logpkt_ether_lookup lookup_env_tx_fails 0 [] [] [] ''10.0.0.2'' ''eth0'')) = 0
   \<and> returned (logpkt_ether_lookup lookup_env_tx_fails 0 [] [] [] ''10.0.0.2'' ''eth0'') = - 1"
    by (simp add: logpkt_ether_lookup_def lookup_env_tx_fails_def lookup_env_example_def
        arp_loop.simps trace0_def Let_def)
  have b: "setup_error (logpkt_ether_lookup lookup_env_hln4_reply 0 [] [] [] ''10.0.0.2'' ''eth0'') = None
   \<and> attempts (trace (logpkt_ether_lookup lookup_env_hln4_reply 0 [] [] [] ''10.0.0.2'' ''eth0'')) = 1
   \<and> returned (logpkt_ether_lookup lookup_env_hln4_reply 0 [] [] [] ''10.0.0.2'' ''eth0'') = 0"
    using reply_hln4_facts(1)
    by (simp add: logpkt_ether_lookup_def lookup_env_hln4_reply_def lookup_env_example_def
        arp_loop.simps trace0_def Let_def recv_arp_reply_accepts)
  have c: "fst (pcap_dispatch lookup_env_hln4_reply 0) = [reply_hln4]"
    by (simp add: lookup_env_hln4_reply_def example_env_simps)
  from a b c reply_hln4_facts(2) show ?thesis by blast
qed




end
